theory Spec2Isabelle
  imports
    Complex_Main
    "HOL-Library.DAList"
    "HOL-Library.Word"
    "HOL-Library.Char_ord"
    "HOL-Library.List_Lexorder"
    "HOL-Library.Sublist"
begin

unbundle bit_operations_syntax

section \<open>Data model\<close>

text \<open>
  Embedding of \<^verbatim>\<open>utils/CognitiveKernel.{h,cpp}\<close> and
  \<^verbatim>\<open>utils/HypergraphSubstrate.{h,cpp}\<close>.

  \<^item> \<^verbatim>\<open>std::string\<close> is \<open>string\<close>; its \<^verbatim>\<open>operator<\<close> is the
    lexicographic order on bytes, which is the order of \<open>Char_ord\<close> and
    \<open>List_Lexorder\<close>.
  \<^item> A \<^verbatim>\<open>double\<close> that is stored (a weight, an activation) is a \<open>real\<close>, and
    arithmetic is exact: there is no rounding. The result of
    \<^verbatim>\<open>calculate_resonance\<close>, whose sign and order matter below, is a \<open>double\<close>
    with the two infinities and not-a-number: overflow and \<open>0/0\<close> are written
    out there.
  \<^item> \<^verbatim>\<open>std::unordered_map<K,V>\<close> is an association list with distinct keys
    (\<open>('k,'v) alist\<close>): \<open>DAList.lookup\<close> is \<^verbatim>\<open>find\<close>, \<open>DAList.update\<close> is
    \<^verbatim>\<open>m[k] = v\<close>, \<open>DAList.delete\<close> is \<^verbatim>\<open>erase\<close>, \<open>size\<close> is \<^verbatim>\<open>size()\<close>
    and the list \<open>impl_of m\<close> is the iteration order (unspecified in C++; the
    theorems below do not depend on it).
  \<^item> \<^verbatim>\<open>std::unordered_set<NodeId>\<close> is the list of its elements in iteration
    order; every function below only tests membership or iterates.
  \<^item> Attribute maps are never iterated and are maps \<open>string \<rightharpoonup> string\<close>.
  \<^item> A data member loses the trailing underscore of its name (\<^verbatim>\<open>nodes_\<close> is
    \<open>nodes\<close>); \<^verbatim>\<open>id\<close>, \<^verbatim>\<open>label\<close> and \<^verbatim>\<open>attributes\<close> carry the prefix
    \<open>n_\<close> in a node and \<open>e_\<close> in an edge; the methods of the persistence
    strategy carry the prefix \<open>persistence_\<close>.
\<close>

type_synonym NodeId = string
type_synonym EdgeId = string
type_synonym Weight = real

record DeepTreeEcho =
  identity_signature :: string
  resonance_frequency :: "64 word"
  echo_patterns :: "string list"
  cognitive_weight :: real

datatype CognitiveState =
  DORMANT | AWAKENING | PROCESSING | LEARNING | REASONING | CREATING | REFLECTING

record HyperNode =
  n_id :: NodeId
  n_label :: string
  n_attributes :: "string \<rightharpoonup> string"
  echo_signature :: DeepTreeEcho
  activation_level :: Weight

record HyperEdge =
  e_id :: EdgeId
  e_label :: string
  connected_nodes :: "NodeId list"
  e_attributes :: "string \<rightharpoonup> string"
  strength :: Weight

text \<open>The exception thrown by \<^verbatim>\<open>validate_edge_consistency\<close>, with its message.\<close>

datatype exn = invalid_argument string

section \<open>MemorySubstratePersistence\<close>

text \<open>
  The in-memory strategy, the only implementation of \<^verbatim>\<open>SubstratePersistence\<close> in
  the repository and the one the substrate constructs by default. Each of its
  methods takes \<^verbatim>\<open>persistence_mutex_\<close> and calls nothing else, so that mutex is
  never requested while held and is left out of the model.
\<close>

record MemorySubstratePersistence =
  p_nodes :: "(NodeId, HyperNode) alist"
  p_edges :: "(EdgeId, HyperEdge) alist"

definition persistence_save_node ::
  "MemorySubstratePersistence \<Rightarrow> HyperNode \<Rightarrow> bool \<times> MemorySubstratePersistence" where
  "persistence_save_node p node =
     (True, p\<lparr>p_nodes := DAList.update (n_id node) node (p_nodes p)\<rparr>)"

definition persistence_save_edge ::
  "MemorySubstratePersistence \<Rightarrow> HyperEdge \<Rightarrow> bool \<times> MemorySubstratePersistence" where
  "persistence_save_edge p edge =
     (True, p\<lparr>p_edges := DAList.update (e_id edge) edge (p_edges p)\<rparr>)"

text \<open>\<^verbatim>\<open>load_node\<close> returns false or fills the out parameter: an option.\<close>

definition persistence_load_node ::
  "MemorySubstratePersistence \<Rightarrow> NodeId \<Rightarrow> HyperNode option" where
  "persistence_load_node p i = DAList.lookup (p_nodes p) i"

definition persistence_load_edge ::
  "MemorySubstratePersistence \<Rightarrow> EdgeId \<Rightarrow> HyperEdge option" where
  "persistence_load_edge p i = DAList.lookup (p_edges p) i"

definition persistence_remove_node ::
  "MemorySubstratePersistence \<Rightarrow> NodeId \<Rightarrow> bool \<times> MemorySubstratePersistence" where
  "persistence_remove_node p i =
     (DAList.lookup (p_nodes p) i \<noteq> None, p\<lparr>p_nodes := DAList.delete i (p_nodes p)\<rparr>)"

definition persistence_remove_edge ::
  "MemorySubstratePersistence \<Rightarrow> EdgeId \<Rightarrow> bool \<times> MemorySubstratePersistence" where
  "persistence_remove_edge p i =
     (DAList.lookup (p_edges p) i \<noteq> None, p\<lparr>p_edges := DAList.delete i (p_edges p)\<rparr>)"

definition get_all_node_ids :: "MemorySubstratePersistence \<Rightarrow> NodeId list" where
  "get_all_node_ids p = map fst (DAList.impl_of (p_nodes p))"

definition get_all_edge_ids :: "MemorySubstratePersistence \<Rightarrow> EdgeId list" where
  "get_all_edge_ids p = map fst (DAList.impl_of (p_edges p))"

definition persistence_clear :: "MemorySubstratePersistence \<Rightarrow> MemorySubstratePersistence" where
  "persistence_clear p = p\<lparr>p_nodes := DAList.empty, p_edges := DAList.empty\<rparr>"

section \<open>HypergraphSubstrate\<close>

text \<open>
  \<open>substrate_mutex\<close> is the \<^verbatim>\<open>std::mutex substrate_mutex_\<close> of the class: \<open>True\<close> while a
  \<^verbatim>\<open>std::lock_guard\<close> of the calling thread holds it. \<^verbatim>\<open>std::mutex\<close> is not
  recursive: a thread that locks it again never gets a result from that call
  (the behaviour is undefined, in practice the thread blocks on itself). Such
  a call has the value \<open>None\<close>.
\<close>

record HypergraphSubstrate =
  nodes :: "(NodeId, HyperNode) alist"
  edges :: "(EdgeId, HyperEdge) alist"
  persistence :: MemorySubstratePersistence
  substrate_mutex :: bool

text \<open>The constructor with the default argument (\<^verbatim>\<open>nullptr\<close>).\<close>

definition new_substrate :: HypergraphSubstrate where
  "new_substrate =
     \<lparr>nodes = DAList.empty, edges = DAList.empty,
      persistence = \<lparr>p_nodes = DAList.empty, p_edges = DAList.empty\<rparr>,
      substrate_mutex = False\<rparr>"

text \<open>
  \<^verbatim>\<open>std::lock_guard<std::mutex> lock(substrate_mutex_)\<close> at the head of a method:
  the body runs with the mutex held, and the guard's destructor releases it on
  every exit, normal or by exception. \<open>lock_guard\<close> is for the methods that
  change the substrate, \<open>lock_guard_const\<close> for the \<^verbatim>\<open>const\<close> ones.
\<close>

definition lock_guard ::
  "HypergraphSubstrate \<Rightarrow> (HypergraphSubstrate \<Rightarrow> ('a \<times> HypergraphSubstrate) option)
     \<Rightarrow> ('a \<times> HypergraphSubstrate) option" where
  "lock_guard s body =
     (if substrate_mutex s then None
      else (case body (s\<lparr>substrate_mutex := True\<rparr>) of
              None \<Rightarrow> None
            | Some (r, s') \<Rightarrow> Some (r, s'\<lparr>substrate_mutex := False\<rparr>)))"

definition lock_guard_const ::
  "HypergraphSubstrate \<Rightarrow> (HypergraphSubstrate \<Rightarrow> 'a option) \<Rightarrow> 'a option" where
  "lock_guard_const s body =
     (if substrate_mutex s then None else body (s\<lparr>substrate_mutex := True\<rparr>))"

subsection \<open>Node management\<close>

definition add_node ::
  "HypergraphSubstrate \<Rightarrow> HyperNode \<Rightarrow> (bool \<times> HypergraphSubstrate) option" where
  "add_node s node = lock_guard s (\<lambda>s.
     if DAList.lookup (nodes s) (n_id node) \<noteq> None then Some (False, s)
     else Some (True,
       s\<lparr>nodes := DAList.update (n_id node) node (nodes s),
         persistence := snd (persistence_save_node (persistence s) node)\<rparr>))"

text \<open>The second loop of \<^verbatim>\<open>remove_node\<close>: erase each collected edge id.\<close>

definition erase_edge :: "EdgeId \<Rightarrow> HypergraphSubstrate \<Rightarrow> HypergraphSubstrate" where
  "erase_edge edge_id s =
     s\<lparr>edges := DAList.delete edge_id (edges s),
       persistence := snd (persistence_remove_edge (persistence s) edge_id)\<rparr>"

text \<open>The first loop of \<^verbatim>\<open>remove_node\<close>: the ids of the edges that have \<open>i\<close> as a member.\<close>

definition edges_to_remove :: "HypergraphSubstrate \<Rightarrow> NodeId \<Rightarrow> EdgeId list" where
  "edges_to_remove s i =
     map fst (filter (\<lambda>(edge_id, edge). i \<in> set (connected_nodes edge))
                (DAList.impl_of (edges s)))"

definition remove_node ::
  "HypergraphSubstrate \<Rightarrow> NodeId \<Rightarrow> (bool \<times> HypergraphSubstrate) option" where
  "remove_node s i = lock_guard s (\<lambda>s.
     let s1 = fold erase_edge (edges_to_remove s i) s;
         removed = (DAList.lookup (nodes s1) i \<noteq> None);
         s2 = s1\<lparr>nodes := DAList.delete i (nodes s1)\<rparr>
     in if removed
        then Some (True, s2\<lparr>persistence := snd (persistence_remove_node (persistence s2) i)\<rparr>)
        else Some (False, s2))"

definition update_node ::
  "HypergraphSubstrate \<Rightarrow> HyperNode \<Rightarrow> (bool \<times> HypergraphSubstrate) option" where
  "update_node s node = lock_guard s (\<lambda>s.
     if DAList.lookup (nodes s) (n_id node) = None then Some (False, s)
     else Some (True,
       s\<lparr>nodes := DAList.update (n_id node) node (nodes s),
         persistence := snd (persistence_save_node (persistence s) node)\<rparr>))"

definition get_node :: "HypergraphSubstrate \<Rightarrow> NodeId \<Rightarrow> HyperNode option option" where
  "get_node s i = lock_guard_const s (\<lambda>s. Some (DAList.lookup (nodes s) i))"

definition node_exists :: "HypergraphSubstrate \<Rightarrow> NodeId \<Rightarrow> bool option" where
  "node_exists s i = lock_guard_const s (\<lambda>s. Some (DAList.lookup (nodes s) i \<noteq> None))"

subsection \<open>Edge management\<close>

text \<open>
  \<^verbatim>\<open>validate_edge_consistency\<close> (private, takes no lock): \<open>Some e\<close> when it throws
  \<open>e\<close>, at the first member in iteration order that is not a node.
\<close>

definition validate_edge_consistency :: "HypergraphSubstrate \<Rightarrow> HyperEdge \<Rightarrow> exn option" where
  "validate_edge_consistency s edge =
     (case find (\<lambda>node_id. DAList.lookup (nodes s) node_id = None) (connected_nodes edge) of
        None \<Rightarrow> None
      | Some node_id \<Rightarrow>
          Some (invalid_argument (''Edge references non-existent node: '' @ node_id)))"

text \<open>
  The result of a method that may throw is \<open>Inl e\<close> (the exception reaches the
  caller) or \<open>Inr b\<close> (it returns \<open>b\<close>), with the substrate as the call leaves it.
\<close>

definition add_edge ::
  "HypergraphSubstrate \<Rightarrow> HyperEdge \<Rightarrow> ((exn + bool) \<times> HypergraphSubstrate) option" where
  "add_edge s edge = lock_guard s (\<lambda>s.
     if DAList.lookup (edges s) (e_id edge) \<noteq> None then Some (Inr False, s)
     else (case validate_edge_consistency s edge of
             Some e \<Rightarrow> Some (Inl e, s)
           | None \<Rightarrow> Some (Inr True,
               s\<lparr>edges := DAList.update (e_id edge) edge (edges s),
                 persistence := snd (persistence_save_edge (persistence s) edge)\<rparr>)))"

definition remove_edge ::
  "HypergraphSubstrate \<Rightarrow> EdgeId \<Rightarrow> (bool \<times> HypergraphSubstrate) option" where
  "remove_edge s i = lock_guard s (\<lambda>s.
     let removed = (DAList.lookup (edges s) i \<noteq> None);
         s1 = s\<lparr>edges := DAList.delete i (edges s)\<rparr>
     in if removed
        then Some (True, s1\<lparr>persistence := snd (persistence_remove_edge (persistence s1) i)\<rparr>)
        else Some (False, s1))"

definition update_edge ::
  "HypergraphSubstrate \<Rightarrow> HyperEdge \<Rightarrow> ((exn + bool) \<times> HypergraphSubstrate) option" where
  "update_edge s edge = lock_guard s (\<lambda>s.
     if DAList.lookup (edges s) (e_id edge) = None then Some (Inr False, s)
     else (case validate_edge_consistency s edge of
             Some e \<Rightarrow> Some (Inl e, s)
           | None \<Rightarrow> Some (Inr True,
               s\<lparr>edges := DAList.update (e_id edge) edge (edges s),
                 persistence := snd (persistence_save_edge (persistence s) edge)\<rparr>)))"

definition get_edge :: "HypergraphSubstrate \<Rightarrow> EdgeId \<Rightarrow> HyperEdge option option" where
  "get_edge s i = lock_guard_const s (\<lambda>s. Some (DAList.lookup (edges s) i))"

definition edge_exists :: "HypergraphSubstrate \<Rightarrow> EdgeId \<Rightarrow> bool option" where
  "edge_exists s i = lock_guard_const s (\<lambda>s. Some (DAList.lookup (edges s) i \<noteq> None))"

definition node_count :: "HypergraphSubstrate \<Rightarrow> nat option" where
  "node_count s = lock_guard_const s (\<lambda>s. Some (size (nodes s)))"

definition edge_count :: "HypergraphSubstrate \<Rightarrow> nat option" where
  "edge_count s = lock_guard_const s (\<lambda>s. Some (size (edges s)))"

subsection \<open>Relationship queries\<close>

text \<open>
  The local \<^verbatim>\<open>std::set<NodeId> connected\<close> is a sorted list without duplicates,
  \<open>insort_insert\<close> its \<^verbatim>\<open>insert\<close>; the returned vector is that list.
\<close>

definition collect_connected ::
  "NodeId \<Rightarrow> (EdgeId \<times> HyperEdge) \<Rightarrow> NodeId list \<Rightarrow> NodeId list" where
  "collect_connected i = (\<lambda>(edge_id, edge) connected.
     if i \<in> set (connected_nodes edge)
     then fold (\<lambda>node_id connected.
                  if node_id \<noteq> i then insort_insert node_id connected else connected)
            (connected_nodes edge) connected
     else connected)"

definition get_connected_nodes :: "HypergraphSubstrate \<Rightarrow> NodeId \<Rightarrow> NodeId list option" where
  "get_connected_nodes s i = lock_guard_const s (\<lambda>s.
     Some (fold (collect_connected i) (DAList.impl_of (edges s)) []))"

subsection \<open>Activation propagation\<close>

text \<open>
  \<^verbatim>\<open>get_reachable_nodes\<close> (private, takes no lock). \<open>bfs_state\<close> holds its three
  locals; \<open>visit_neighbor\<close> is the body of the innermost loop, \<open>visit_edge\<close> the
  body of the loop over \<^verbatim>\<open>edges_\<close>, \<open>bfs_loop\<close> the \<^verbatim>\<open>while (!queue.empty())\<close>.
\<close>

record bfs_state =
  reachable :: "NodeId list"
  visited :: "NodeId set"
  queue :: "(NodeId \<times> int) list"

definition visit_neighbor :: "NodeId \<Rightarrow> int \<Rightarrow> NodeId \<Rightarrow> bfs_state \<Rightarrow> bfs_state" where
  "visit_neighbor current_id hops neighbor_id st =
     (if neighbor_id \<noteq> current_id \<and> neighbor_id \<notin> visited st
      then st\<lparr>visited := insert neighbor_id (visited st),
              queue := queue st @ [(neighbor_id, hops + 1)],
              reachable := reachable st @ [neighbor_id]\<rparr>
      else st)"

definition visit_edge ::
  "NodeId \<Rightarrow> int \<Rightarrow> (EdgeId \<times> HyperEdge) \<Rightarrow> bfs_state \<Rightarrow> bfs_state" where
  "visit_edge current_id hops = (\<lambda>(edge_id, edge) st.
     if current_id \<in> set (connected_nodes edge)
     then fold (visit_neighbor current_id hops) (connected_nodes edge) st
     else st)"

function bfs_loop :: "(EdgeId \<times> HyperEdge) list \<Rightarrow> int \<Rightarrow> bfs_state \<Rightarrow> NodeId list" where
  "bfs_loop es max_hops st =
     (case queue st of
        [] \<Rightarrow> reachable st
      | (current_id, hops) # rest \<Rightarrow>
          (if hops \<ge> max_hops then bfs_loop es max_hops (st\<lparr>queue := rest\<rparr>)
           else bfs_loop es max_hops
                  (fold (visit_edge current_id hops) es (st\<lparr>queue := rest\<rparr>))))"
  by pat_completeness auto

definition get_reachable_nodes :: "HypergraphSubstrate \<Rightarrow> NodeId \<Rightarrow> int \<Rightarrow> NodeId list" where
  "get_reachable_nodes s source max_hops =
     bfs_loop (DAList.impl_of (edges s)) max_hops
       \<lparr>reachable = [], visited = {source}, queue = [(source, 0)]\<rparr>"

text \<open>The body of the loop over the reachable ids in \<^verbatim>\<open>propagate_activation\<close>.\<close>

definition receive_activation ::
  "Weight \<Rightarrow> NodeId \<Rightarrow> HypergraphSubstrate \<Rightarrow> HypergraphSubstrate" where
  "receive_activation initial_activation target_id s =
     (case DAList.lookup (nodes s) target_id of
        None \<Rightarrow> s
      | Some target \<Rightarrow>
          (let propagated_activation = initial_activation * 0.7
           in s\<lparr>nodes := DAList.update target_id
                  (target\<lparr>activation_level := activation_level target + propagated_activation\<rparr>)
                  (nodes s)\<rparr>))"

text \<open>
  \<^verbatim>\<open>on_activation_propagation\<close> is the empty virtual of the class itself, which is how
  the repository instantiates the substrate.
\<close>

definition propagate_activation ::
  "HypergraphSubstrate \<Rightarrow> NodeId \<Rightarrow> Weight \<Rightarrow> (unit \<times> HypergraphSubstrate) option" where
  "propagate_activation s source_id initial_activation = lock_guard s (\<lambda>s.
     case DAList.lookup (nodes s) source_id of
       None \<Rightarrow> Some ((), s)
     | Some source \<Rightarrow>
         (let s1 = s\<lparr>nodes := DAList.update source_id
                       (source\<lparr>activation_level := initial_activation\<rparr>) (nodes s)\<rparr>;
              targets = get_reachable_nodes s1 source_id 2
          in Some ((), fold (receive_activation initial_activation) targets s1)))"

definition update_node_activation ::
  "HypergraphSubstrate \<Rightarrow> NodeId \<Rightarrow> Weight \<Rightarrow> (unit \<times> HypergraphSubstrate) option" where
  "update_node_activation s i activation = lock_guard s (\<lambda>s.
     case DAList.lookup (nodes s) i of
       None \<Rightarrow> Some ((), s)
     | Some node \<Rightarrow>
         Some ((), s\<lparr>nodes := DAList.update i (node\<lparr>activation_level := activation\<rparr>) (nodes s)\<rparr>))"

definition get_node_activation :: "HypergraphSubstrate \<Rightarrow> NodeId \<Rightarrow> Weight option" where
  "get_node_activation s i = lock_guard_const s (\<lambda>s.
     Some (case DAList.lookup (nodes s) i of Some node \<Rightarrow> activation_level node | None \<Rightarrow> 0))"

subsection \<open>Substrate metrics\<close>

text \<open>
  The two nested loops of \<^verbatim>\<open>calculate_clustering_coefficient\<close>: \<open>count_row\<close> is the
  loop over \<open>j\<close> for one \<open>i\<close>, \<open>count_actual_edges\<close> the loop over \<open>i\<close>. Every
  iteration calls the public \<^verbatim>\<open>get_connected_nodes\<close>. \<^verbatim>\<open>size_t\<close> is \<open>nat\<close>: the
  products stay far below \<open>2^64\<close>.
\<close>

fun count_row :: "HypergraphSubstrate \<Rightarrow> NodeId \<Rightarrow> NodeId list \<Rightarrow> nat \<Rightarrow> nat option" where
  "count_row s ni [] actual_edges = Some actual_edges"
| "count_row s ni (nj # rest) actual_edges =
     (case get_connected_nodes s ni of
        None \<Rightarrow> None
      | Some neighbor_connections \<Rightarrow>
          count_row s ni rest
            (if nj \<in> set neighbor_connections then actual_edges + 1 else actual_edges))"

fun count_actual_edges :: "HypergraphSubstrate \<Rightarrow> NodeId list \<Rightarrow> nat \<Rightarrow> nat option" where
  "count_actual_edges s [] actual_edges = Some actual_edges"
| "count_actual_edges s (ni # rest) actual_edges =
     (case count_row s ni rest actual_edges of
        None \<Rightarrow> None
      | Some a \<Rightarrow> count_actual_edges s rest a)"

definition calculate_clustering_coefficient ::
  "HypergraphSubstrate \<Rightarrow> NodeId \<Rightarrow> real option" where
  "calculate_clustering_coefficient s i = lock_guard_const s (\<lambda>s.
     case get_connected_nodes s i of
       None \<Rightarrow> None
     | Some neighbors \<Rightarrow>
         if length neighbors < 2 then Some 0
         else (let possible_edges = length neighbors * (length neighbors - 1) div 2
               in case count_actual_edges s neighbors 0 of
                    None \<Rightarrow> None
                  | Some actual_edges \<Rightarrow> Some (real actual_edges / real possible_edges)))"

definition calculate_substrate_density :: "HypergraphSubstrate \<Rightarrow> real option" where
  "calculate_substrate_density s = lock_guard_const s (\<lambda>s.
     if size (nodes s) < 2 then Some 0
     else (let possible_connections = size (nodes s) * (size (nodes s) - 1) div 2
           in Some (real (size (edges s)) / real possible_connections)))"

subsection \<open>Persistence operations\<close>

fun save_nodes ::
  "(NodeId \<times> HyperNode) list \<Rightarrow> MemorySubstratePersistence
     \<Rightarrow> bool \<times> MemorySubstratePersistence" where
  "save_nodes [] p = (True, p)"
| "save_nodes ((node_id, node) # rest) p =
     (case persistence_save_node p node of
        (ok, p') \<Rightarrow> if \<not> ok then (False, p') else save_nodes rest p')"

fun save_edges ::
  "(EdgeId \<times> HyperEdge) list \<Rightarrow> MemorySubstratePersistence
     \<Rightarrow> bool \<times> MemorySubstratePersistence" where
  "save_edges [] p = (True, p)"
| "save_edges ((edge_id, edge) # rest) p =
     (case persistence_save_edge p edge of
        (ok, p') \<Rightarrow> if \<not> ok then (False, p') else save_edges rest p')"

definition save_substrate :: "HypergraphSubstrate \<Rightarrow> (bool \<times> HypergraphSubstrate) option" where
  "save_substrate s = lock_guard s (\<lambda>s.
     case save_nodes (DAList.impl_of (nodes s)) (persistence s) of
       (False, p) \<Rightarrow> Some (False, s\<lparr>persistence := p\<rparr>)
     | (True, p) \<Rightarrow>
         (case save_edges (DAList.impl_of (edges s)) p of
            (ok, p') \<Rightarrow> Some (ok, s\<lparr>persistence := p'\<rparr>)))"

definition load_node_into :: "NodeId \<Rightarrow> HypergraphSubstrate \<Rightarrow> HypergraphSubstrate" where
  "load_node_into node_id s =
     (case persistence_load_node (persistence s) node_id of
        Some node \<Rightarrow> s\<lparr>nodes := DAList.update node_id node (nodes s)\<rparr>
      | None \<Rightarrow> s)"

definition load_edge_into :: "EdgeId \<Rightarrow> HypergraphSubstrate \<Rightarrow> HypergraphSubstrate" where
  "load_edge_into edge_id s =
     (case persistence_load_edge (persistence s) edge_id of
        Some edge \<Rightarrow> s\<lparr>edges := DAList.update edge_id edge (edges s)\<rparr>
      | None \<Rightarrow> s)"

definition load_substrate :: "HypergraphSubstrate \<Rightarrow> (bool \<times> HypergraphSubstrate) option" where
  "load_substrate s = lock_guard s (\<lambda>s.
     let s0 = s\<lparr>nodes := DAList.empty, edges := DAList.empty\<rparr>;
         s1 = fold load_node_into (get_all_node_ids (persistence s0)) s0;
         s2 = fold load_edge_into (get_all_edge_ids (persistence s1)) s1
     in Some (True, s2))"

text \<open>
  The \<^verbatim>\<open>dynamic_cast<MemorySubstratePersistence*>\<close> succeeds: the strategy of this
  model is the in-memory one.
\<close>

definition clear_substrate :: "HypergraphSubstrate \<Rightarrow> (unit \<times> HypergraphSubstrate) option" where
  "clear_substrate s = lock_guard s (\<lambda>s.
     Some ((), s\<lparr>nodes := DAList.empty, edges := DAList.empty,
                 persistence := persistence_clear (persistence s)\<rparr>))"

section \<open>Constructors and fixtures\<close>

text \<open>
  The constructors \<^verbatim>\<open>HyperNode(node_id, node_label)\<close> and
  \<^verbatim>\<open>HyperEdge(edge_id, nodes)\<close> with the default member initialisers, and the
  default \<^verbatim>\<open>DeepTreeEcho\<close>.
\<close>

definition default_echo :: DeepTreeEcho where
  "default_echo = \<lparr>identity_signature = [], resonance_frequency = 0, echo_patterns = [],
                    cognitive_weight = 1\<rparr>"

definition new_node :: "NodeId \<Rightarrow> string \<Rightarrow> HyperNode" where
  "new_node node_id node_label =
     \<lparr>n_id = node_id, n_label = node_label, n_attributes = Map.empty,
      echo_signature = default_echo, activation_level = 0\<rparr>"

definition new_edge :: "EdgeId \<Rightarrow> NodeId list \<Rightarrow> HyperEdge" where
  "new_edge edge_id ns =
     \<lparr>e_id = edge_id, e_label = [], connected_nodes = ns, e_attributes = Map.empty,
      strength = 1\<rparr>"

text \<open>
  A caller that issues operations one after the other and catches what
  \<^verbatim>\<open>add_edge\<close> and \<^verbatim>\<open>update_edge\<close> throw: \<open>apply_op\<close> is the substrate as one call
  leaves it, \<open>None\<close> if the call never comes back.
\<close>

datatype substrate_op =
  AddNode HyperNode | UpdateNode HyperNode | RemoveNode NodeId
| AddEdge HyperEdge | UpdateEdge HyperEdge | RemoveEdge EdgeId

fun apply_op :: "HypergraphSubstrate \<Rightarrow> substrate_op \<Rightarrow> HypergraphSubstrate option" where
  "apply_op s (AddNode node) = map_option snd (add_node s node)"
| "apply_op s (UpdateNode node) = map_option snd (update_node s node)"
| "apply_op s (RemoveNode i) = map_option snd (remove_node s i)"
| "apply_op s (AddEdge edge) = map_option snd (add_edge s edge)"
| "apply_op s (UpdateEdge edge) = map_option snd (update_edge s edge)"
| "apply_op s (RemoveEdge i) = map_option snd (remove_edge s i)"

fun run_ops :: "HypergraphSubstrate \<Rightarrow> substrate_op list \<Rightarrow> HypergraphSubstrate option" where
  "run_ops s [] = Some s"
| "run_ops s (x # xs) = (case apply_op s x of None \<Rightarrow> None | Some s' \<Rightarrow> run_ops s' xs)"

text \<open>
  The substrates that \<^verbatim>\<open>tests/HypergraphSubstrateTests.cpp\<close> builds, each with the
  calls that build it: the three nodes and three pairwise edges of the removal
  test, a sequence with a rejected edge, a one-edge substrate, and the chain of the
  activation test.
\<close>

definition removal_ops :: "substrate_op list" where
  "removal_ops =
     [AddNode (new_node ''node1'' ''First Node''),
      AddNode (new_node ''node2'' ''Second Node''),
      AddNode (new_node ''node3'' ''Third Node''),
      AddEdge (new_edge ''edge1'' [''node1'', ''node2'']),
      AddEdge (new_edge ''edge2'' [''node1'', ''node3'']),
      AddEdge (new_edge ''edge3'' [''node2'', ''node3''])]"

definition removal_substrate :: HypergraphSubstrate where
  "removal_substrate =
     (let ns = DAList.update ''node3'' (new_node ''node3'' ''Third Node'')
                (DAList.update ''node2'' (new_node ''node2'' ''Second Node'')
                  (DAList.update ''node1'' (new_node ''node1'' ''First Node'') DAList.empty));
          es = DAList.update ''edge3'' (new_edge ''edge3'' [''node2'', ''node3''])
                (DAList.update ''edge2'' (new_edge ''edge2'' [''node1'', ''node3''])
                  (DAList.update ''edge1'' (new_edge ''edge1'' [''node1'', ''node2'']) DAList.empty))
      in \<lparr>nodes = ns, edges = es, persistence = \<lparr>p_nodes = ns, p_edges = es\<rparr>,
          substrate_mutex = False\<rparr>)"

definition mixed_ops :: "substrate_op list" where
  "mixed_ops =
     [AddNode (new_node ''node1'' ''First Node''),
      AddNode (new_node ''node2'' ''Second Node''),
      AddEdge (new_edge ''edge1'' [''node1'', ''node2'']),
      AddEdge (new_edge ''invalid'' [''node1'', ''nonexistent'']),
      RemoveNode ''node1'']"

definition edge_test_ops :: "substrate_op list" where
  "edge_test_ops =
     [AddNode (new_node ''node1'' ''First Node''), AddEdge (new_edge ''edge1'' [''node1''])]"

definition edge_test_substrate :: HypergraphSubstrate where
  "edge_test_substrate =
     (let ns = DAList.update ''node1'' (new_node ''node1'' ''First Node'') DAList.empty;
          es = DAList.update ''edge1'' (new_edge ''edge1'' [''node1'']) DAList.empty
      in \<lparr>nodes = ns, edges = es, persistence = \<lparr>p_nodes = ns, p_edges = es\<rparr>,
          substrate_mutex = False\<rparr>)"

definition chain_ops :: "substrate_op list" where
  "chain_ops =
     [AddNode (new_node ''node1'' ''Source Node''),
      AddNode (new_node ''node2'' ''Target Node 1''),
      AddNode (new_node ''node3'' ''Target Node 2''),
      AddNode (new_node ''node4'' ''Distant Node''),
      AddEdge (new_edge ''edge1'' [''node1'', ''node2'']),
      AddEdge (new_edge ''edge2'' [''node2'', ''node3'']),
      AddEdge (new_edge ''edge3'' [''node3'', ''node4''])]"

definition chain_substrate :: HypergraphSubstrate where
  "chain_substrate =
     (let ns = DAList.update ''node4'' (new_node ''node4'' ''Distant Node'')
                (DAList.update ''node3'' (new_node ''node3'' ''Target Node 2'')
                  (DAList.update ''node2'' (new_node ''node2'' ''Target Node 1'')
                    (DAList.update ''node1'' (new_node ''node1'' ''Source Node'') DAList.empty)));
          es = DAList.update ''edge3'' (new_edge ''edge3'' [''node3'', ''node4''])
                (DAList.update ''edge2'' (new_edge ''edge2'' [''node2'', ''node3''])
                  (DAList.update ''edge1'' (new_edge ''edge1'' [''node1'', ''node2'']) DAList.empty))
      in \<lparr>nodes = ns, edges = es, persistence = \<lparr>p_nodes = ns, p_edges = es\<rparr>,
          substrate_mutex = False\<rparr>)"

text \<open>
  The triangle of the clustering test, and the substrate of the persistence test
  (one node with an attribute, one edge on it).
\<close>

definition triangle_ops :: "substrate_op list" where
  "triangle_ops =
     [AddNode (new_node ''nodeA'' ''Node A''),
      AddNode (new_node ''nodeB'' ''Node B''),
      AddNode (new_node ''nodeC'' ''Node C''),
      AddEdge (new_edge ''edgeAB'' [''nodeA'', ''nodeB'']),
      AddEdge (new_edge ''edgeBC'' [''nodeB'', ''nodeC'']),
      AddEdge (new_edge ''edgeAC'' [''nodeA'', ''nodeC''])]"

definition triangle_substrate :: HypergraphSubstrate where
  "triangle_substrate =
     (let ns = DAList.update ''nodeC'' (new_node ''nodeC'' ''Node C'')
                (DAList.update ''nodeB'' (new_node ''nodeB'' ''Node B'')
                  (DAList.update ''nodeA'' (new_node ''nodeA'' ''Node A'') DAList.empty));
          es = DAList.update ''edgeAC'' (new_edge ''edgeAC'' [''nodeA'', ''nodeC''])
                (DAList.update ''edgeBC'' (new_edge ''edgeBC'' [''nodeB'', ''nodeC''])
                  (DAList.update ''edgeAB'' (new_edge ''edgeAB'' [''nodeA'', ''nodeB'']) DAList.empty))
      in \<lparr>nodes = ns, edges = es, persistence = \<lparr>p_nodes = ns, p_edges = es\<rparr>,
          substrate_mutex = False\<rparr>)"

definition persistent_node :: HyperNode where
  "persistent_node = (new_node ''node1'' ''Persistent Node'')\<lparr>n_attributes := [''key'' \<mapsto> ''value'']\<rparr>"

definition persistence_ops :: "substrate_op list" where
  "persistence_ops = [AddNode persistent_node, AddEdge (new_edge ''edge1'' [''node1''])]"

definition persistence_substrate :: HypergraphSubstrate where
  "persistence_substrate =
     (let ns = DAList.update ''node1'' persistent_node DAList.empty;
          es = DAList.update ''edge1'' (new_edge ''edge1'' [''node1'']) DAList.empty
      in \<lparr>nodes = ns, edges = es, persistence = \<lparr>p_nodes = ns, p_edges = es\<rparr>,
          substrate_mutex = False\<rparr>)"

section \<open>Notions of the specification\<close>

text \<open>No stored edge names a node id that is not a key of the node table.\<close>

definition referential_integrity :: "HypergraphSubstrate \<Rightarrow> bool" where
  "referential_integrity s =
     (\<forall>(edge_id, edge) \<in> set (DAList.impl_of (edges s)).
        \<forall>node_id \<in> set (connected_nodes edge). DAList.lookup (nodes s) node_id \<noteq> None)"

text \<open>
  One hop: two different ids that are members of one stored edge. Within two
  hops of \<open>source\<close>: another id one hop away, or one hop away from an id that is.
\<close>

definition all_members :: "HypergraphSubstrate \<Rightarrow> NodeId list" where
  "all_members s =
     concat (map (\<lambda>(edge_id, edge). connected_nodes edge) (DAList.impl_of (edges s)))"

definition one_hop :: "HypergraphSubstrate \<Rightarrow> NodeId \<Rightarrow> NodeId \<Rightarrow> bool" where
  "one_hop s a b \<longleftrightarrow>
     a \<noteq> b \<and> (\<exists>(edge_id, edge) \<in> set (DAList.impl_of (edges s)).
                 a \<in> set (connected_nodes edge) \<and> b \<in> set (connected_nodes edge))"

definition within_two_hops :: "HypergraphSubstrate \<Rightarrow> NodeId \<Rightarrow> NodeId \<Rightarrow> bool" where
  "within_two_hops s source n \<longleftrightarrow>
     n \<noteq> source \<and>
     (one_hop s source n \<or> (\<exists>m \<in> set (all_members s). one_hop s source m \<and> one_hop s m n))"

text \<open>
  For the proofs about the traversal: the ids that occur in some edge, the
  quantity that every iteration of the \<^verbatim>\<open>while\<close> loop decreases, and the set of
  co-members of an id.
\<close>

definition members_of :: "(EdgeId \<times> HyperEdge) list \<Rightarrow> NodeId set" where
  "members_of es = (\<Union>(edge_id, edge) \<in> set es. set (connected_nodes edge))"

definition bfs_measure :: "(EdgeId \<times> HyperEdge) list \<Rightarrow> bfs_state \<Rightarrow> nat" where
  "bfs_measure es st = 2 * card (members_of es - visited st) + length (queue st)"

definition co_members :: "(EdgeId \<times> HyperEdge) list \<Rightarrow> NodeId \<Rightarrow> NodeId set" where
  "co_members es c =
     {n. n \<noteq> c \<and> (\<exists>(edge_id, edge) \<in> set es.
            c \<in> set (connected_nodes edge) \<and> n \<in> set (connected_nodes edge))}"

section \<open>CognitiveKernel\<close>

text \<open>
  The values that the locals of \<^verbatim>\<open>calculate_resonance\<close> and its result can take:
  \<open>Num r\<close> is the number \<open>r\<close>, \<open>PInf\<close> and \<open>NInf\<close> are the infinities,
  \<open>NaN\<close> is not-a-number.
\<close>

datatype double = Num real | PInf | NInf | NaN

text \<open>
  The largest finite \<^verbatim>\<open>double\<close> is \<open>2^1024 - 2^971\<close>; an exact result whose
  magnitude reaches \<open>DBL_LIMIT\<close>, half a unit in the last place above it, becomes
  an infinity. \<open>to_double\<close> is that overflow, \<open>double_times\<close> the IEEE product:
  infinity times zero is not a number.
\<close>

definition DBL_LIMIT :: real where
  "DBL_LIMIT = 2 ^ 1024 - 2 ^ 970"

definition to_double :: "real \<Rightarrow> double" where
  "to_double x = (if DBL_LIMIT \<le> x then PInf else if x \<le> - DBL_LIMIT then NInf else Num x)"

fun double_times :: "double \<Rightarrow> double \<Rightarrow> double" where
  "double_times (Num a) (Num b) = to_double (a * b)"
| "double_times NaN _ = NaN"
| "double_times _ NaN = NaN"
| "double_times PInf (Num b) = (if 0 < b then PInf else if b < 0 then NInf else NaN)"
| "double_times NInf (Num b) = (if 0 < b then NInf else if b < 0 then PInf else NaN)"
| "double_times (Num a) PInf = (if 0 < a then PInf else if a < 0 then NInf else NaN)"
| "double_times (Num a) NInf = (if 0 < a then NInf else if a < 0 then PInf else NaN)"
| "double_times PInf PInf = PInf"
| "double_times PInf NInf = NInf"
| "double_times NInf PInf = NInf"
| "double_times NInf NInf = PInf"

text \<open>
  The members of \<^verbatim>\<open>CognitiveKernel\<close>; \<open>cognitive_memory\<close> is the
  \<^verbatim>\<open>memory_store_\<close> of its \<^verbatim>\<open>CognitiveMemory\<close>, \<open>store\<close> the method of that name.
  \<^verbatim>\<open>memory_mutex_\<close> is taken by methods that call nothing, and \<^verbatim>\<open>kernel_mutex_\<close>
  only by \<^verbatim>\<open>initialize\<close>, which is not needed below: neither is in the model.
\<close>

record CognitiveKernel =
  echo_identity :: DeepTreeEcho
  current_state :: CognitiveState
  cognitive_memory :: "string \<rightharpoonup> string"
  process_counter :: "64 word"

definition new_kernel :: CognitiveKernel where
  "new_kernel = \<lparr>echo_identity = default_echo, current_state = DORMANT,
                  cognitive_memory = Map.empty, process_counter = 0\<rparr>"

definition store :: "string \<Rightarrow> string \<Rightarrow> CognitiveKernel \<Rightarrow> CognitiveKernel" where
  "store key val k = k\<lparr>cognitive_memory := (cognitive_memory k)(key \<mapsto> val)\<rparr>"

text \<open>
  \<^verbatim>\<open>input_data.find(pattern)\<close>: the first position at which \<open>pattern\<close> starts,
  \<open>None\<close> for \<^verbatim>\<open>std::string::npos\<close>.
\<close>

fun string_find :: "string \<Rightarrow> string \<Rightarrow> nat option" where
  "string_find [] pattern = (if pattern = [] then Some 0 else None)"
| "string_find (c # cs) pattern =
     (if prefix pattern (c # cs) then Some 0 else map_option Suc (string_find cs pattern))"

text \<open>
  The loop over \<^verbatim>\<open>echo_patterns\<close> in \<^verbatim>\<open>calculate_resonance\<close>, from
  \<^verbatim>\<open>pattern_influence = 1.0\<close>.
\<close>

definition pattern_influence :: "string list \<Rightarrow> string \<Rightarrow> double" where
  "pattern_influence patterns input_data =
     fold (\<lambda>pattern influence.
             if string_find input_data pattern \<noteq> None
             then double_times influence (Num 1.2) else influence)
       patterns (Num 1)"

text \<open>
  \<^verbatim>\<open>std::hash<std::string>\<close> is library code that the C++ standard leaves to the
  implementation: \<open>hasher\<close> is a parameter. The two hashes are \<^verbatim>\<open>size_t\<close>, their
  \<^verbatim>\<open>std::max\<close> is the unsigned one, and each is converted to \<^verbatim>\<open>double\<close>. When
  both are zero the quotient is \<open>0/0\<close>, and every later product is \<open>NaN\<close> as well.
  Otherwise the base resonance lies between \<open>1/2\<close> and \<open>1\<close>; the product in the
  \<^verbatim>\<open>return\<close> statement is taken from the left.
\<close>

definition calculate_resonance ::
  "(string \<Rightarrow> 64 word) \<Rightarrow> CognitiveKernel \<Rightarrow> string \<Rightarrow> double" where
  "calculate_resonance hasher k input_data =
     (if input_data = [] \<or> identity_signature (echo_identity k) = [] then Num 0
      else
        (let input_hash = hasher input_data;
             identity_hash = hasher (identity_signature (echo_identity k))
         in if max input_hash identity_hash = 0 then NaN
            else
              (let base_resonance =
                     1 / (1 + \<bar>real (unat input_hash) - real (unat identity_hash)\<bar> /
                              real (unat (max input_hash identity_hash)));
                   influence = pattern_influence (echo_patterns (echo_identity k)) input_data
               in double_times (double_times (Num base_resonance) influence)
                    (Num (cognitive_weight (echo_identity k))))))"

text \<open>
  \<^verbatim>\<open>std::to_string\<close> for \<^verbatim>\<open>double\<close> and \<^verbatim>\<open>uint64_t\<close> is library code too. The
  virtual methods \<^verbatim>\<open>on_cognitive_process\<close> and \<^verbatim>\<open>on_state_transition\<close> are supplied
  by a derived class: each may change the kernel through its public methods and
  may throw (\<open>Some e\<close>) or return (\<open>None\<close>).
\<close>

record stdlib =
  hasher :: "string \<Rightarrow> 64 word"
  to_string_double :: "double \<Rightarrow> string"
  to_string_uint64 :: "64 word \<Rightarrow> string"

record 'x hooks =
  on_cognitive_process :: "string \<Rightarrow> CognitiveKernel \<Rightarrow> 'x option \<times> CognitiveKernel"
  on_state_transition ::
    "CognitiveState \<Rightarrow> CognitiveState \<Rightarrow> CognitiveKernel \<Rightarrow> 'x option \<times> CognitiveKernel"

text \<open>
  The result of a kernel method is the exception that reaches the caller, if any,
  and the kernel as the call leaves it.
\<close>

definition set_cognitive_state ::
  "'x hooks \<Rightarrow> CognitiveState \<Rightarrow> CognitiveKernel \<Rightarrow> 'x option \<times> CognitiveKernel" where
  "set_cognitive_state H new_state k =
     (let old_state = current_state k;
          k' = k\<lparr>current_state := new_state\<rparr>
      in if old_state \<noteq> new_state then on_state_transition H old_state new_state k'
         else (None, k'))"

definition get_cognitive_state :: "CognitiveKernel \<Rightarrow> CognitiveState" where
  "get_cognitive_state k = current_state k"

text \<open>The statements of the \<^verbatim>\<open>try\<close> block that precede the hook.\<close>

definition record_signal :: "stdlib \<Rightarrow> string \<Rightarrow> CognitiveKernel \<Rightarrow> CognitiveKernel" where
  "record_signal L signal_data k =
     (let resonance = calculate_resonance (hasher L) k signal_data;
          k1 = store ''last_signal'' signal_data k;
          k2 = store ''last_resonance'' (to_string_double L resonance) k1;
          k3 = k2\<lparr>process_counter := process_counter k2 + 1\<rparr>
      in store ''process_count'' (to_string_uint64 L (process_counter k2 + 1)) k3)"

definition process_cognitive_signal ::
  "stdlib \<Rightarrow> 'x hooks \<Rightarrow> string \<Rightarrow> CognitiveKernel \<Rightarrow> 'x option \<times> CognitiveKernel" where
  "process_cognitive_signal L H signal_data k =
     (let old_state = current_state k
      in case set_cognitive_state H PROCESSING k of
           (Some e, k1) \<Rightarrow> (Some e, k1)
         | (None, k1) \<Rightarrow>
             (case on_cognitive_process H signal_data (record_signal L signal_data k1) of
                (Some e, k2) \<Rightarrow>
                  (case set_cognitive_state H old_state k2 of
                     (Some e', k3) \<Rightarrow> (Some e', k3)
                   | (None, k3) \<Rightarrow> (Some e, k3))
              | (None, k2) \<Rightarrow> set_cognitive_state H REFLECTING k2))"

subsection \<open>Notions of the specification for the kernel\<close>








subsection \<open>Kernel fixtures\<close>

text \<open>
  One conforming \<^verbatim>\<open>std::hash<std::string>\<close>, 64-bit FNV-1a, for the closed
  statements below; the theorems are about every \<open>hasher\<close>. \<open>sample_stdlib\<close>
  fixes the other library functions in the same way.
\<close>

definition fnv1a :: "string \<Rightarrow> 64 word" where
  "fnv1a s = fold (\<lambda>c h. (h XOR of_char c) * 1099511628211) s 14695981039346656037"

definition sample_stdlib :: stdlib where
  "sample_stdlib = \<lparr>hasher = fnv1a, to_string_double = (\<lambda>_. []), to_string_uint64 = (\<lambda>_. [])\<rparr>"

text \<open>
  A kernel with a given identity and state; the identity of the resonance test
  in \<^verbatim>\<open>tests/CognitiveKernelTests.cpp\<close>, the same with weight \<open>0\<close>, and the
  identity that \<^verbatim>\<open>CognitiveProcessor::initialize\<close> builds for a
  processor named \<^verbatim>\<open>echo\<close> (its frequency, which the resonance does not read,
  left at \<open>0\<close>).
\<close>

definition kernel_with :: "DeepTreeEcho \<Rightarrow> CognitiveState \<Rightarrow> CognitiveKernel" where
  "kernel_with identity st = new_kernel\<lparr>echo_identity := identity, current_state := st\<rparr>"

definition test_identity :: DeepTreeEcho where
  "test_identity = \<lparr>identity_signature = ''test_identity'', resonance_frequency = 0,
                     echo_patterns = [''cognitive'', ''test''], cognitive_weight = 1\<rparr>"





text \<open>
  The hooks of the base class (both empty), an extension hook that throws, and
  the latter with a transition hook that sets the state itself.
\<close>

definition default_hooks :: "unit hooks" where
  "default_hooks = \<lparr>on_cognitive_process = (\<lambda>d k. (None, k)),
                     on_state_transition = (\<lambda>a b k. (None, k))\<rparr>"

definition failing_hooks :: "unit hooks" where
  "failing_hooks = \<lparr>on_cognitive_process = (\<lambda>d k. (Some (), k)),
                     on_state_transition = (\<lambda>a b k. (None, k))\<rparr>"

definition meddling_hooks :: "unit hooks" where
  "meddling_hooks = \<lparr>on_cognitive_process = (\<lambda>d k. (Some (), k)),
                      on_state_transition = (\<lambda>a b k. (None, k\<lparr>current_state := DORMANT\<rparr>))\<rparr>"

section \<open>Proofs\<close>

subsection \<open>Tables and the lock\<close>

lemmas alist_eval =
  DAList.lookup.rep_eq DAList.update.rep_eq DAList.delete.rep_eq DAList.empty.rep_eq
  size_alist_def DAList.alist_eq_iff

lemma relock_free [simp]:
  "\<not> substrate_mutex s \<Longrightarrow> s\<lparr>substrate_mutex := True, substrate_mutex := False\<rparr> = s"
  by simp

lemma in_impl_of_iff: "(k, v) \<in> set (DAList.impl_of m) \<longleftrightarrow> DAList.lookup m k = Some v"
  by (simp add: DAList.lookup.rep_eq)

lemma length_delete_present:
  "distinct (map fst m) \<Longrightarrow> k \<in> fst ` set m \<Longrightarrow> Suc (length (AList.delete k m)) = length m"
proof (induction m)
  case Nil
  then show ?case by simp
next
  case (Cons a m)
  obtain k' v where a: "a = (k', v)" by (cases a)
  show ?case
  proof (cases "k' = k")
    case True
    with Cons.prems a have "k \<notin> fst ` set m" by auto
    then have "AList.delete k m = m" by simp
    with True a show ?thesis by simp
  next
    case False
    with Cons a show ?thesis by auto
  qed
qed

lemma size_delete_present:
  "DAList.lookup m k \<noteq> None \<Longrightarrow> Suc (size (DAList.delete k m)) = size m"
  unfolding size_alist_def DAList.delete.rep_eq
  by (rule length_delete_present) (simp_all add: DAList.lookup.rep_eq map_of_eq_None_iff)

subsection \<open>Edge validation\<close>

lemma validate_None_iff:
  "validate_edge_consistency s edge = None \<longleftrightarrow>
     (\<forall>n \<in> set (connected_nodes edge). DAList.lookup (nodes s) n \<noteq> None)"
proof -
  have "validate_edge_consistency s edge = None \<longleftrightarrow>
          find (\<lambda>node_id. DAList.lookup (nodes s) node_id = None) (connected_nodes edge) = None"
    by (simp add: validate_edge_consistency_def split: option.splits)
  then show ?thesis by (auto simp add: find_None_iff)
qed

lemma validate_Some:
  "validate_edge_consistency s edge = Some e \<Longrightarrow> \<exists>msg. e = invalid_argument msg"
  by (auto simp: validate_edge_consistency_def split: option.splits)

lemma validate_mutex [simp]:
  "validate_edge_consistency (s\<lparr>substrate_mutex := b\<rparr>) edge = validate_edge_consistency s edge"
  by (simp add: validate_edge_consistency_def)

lemma edge_test_substrate_reached:
  "run_ops new_substrate edge_test_ops = Some edge_test_substrate"
  by (simp add: edge_test_ops_def edge_test_substrate_def new_substrate_def add_node_def
        add_edge_def lock_guard_def validate_edge_consistency_def persistence_save_node_def
        persistence_save_edge_def new_node_def new_edge_def alist_eval Let_def)

text \<open>
  C3. With the mutex free and a member of the edge that is not a node:
  \<^verbatim>\<open>add_edge\<close> of an edge id that is not stored, and \<^verbatim>\<open>update_edge\<close> of one that
  is, throw \<^verbatim>\<open>std::invalid_argument\<close> (the result is \<open>Inl\<close>, not the boolean
  \<open>Inr False\<close>) and leave the whole substrate as it was: the edge is not stored
  and the edge count is the same.
\<close>

theorem add_edge_rejects_missing_member:
  assumes "\<not> substrate_mutex s"
    and "n \<in> set (connected_nodes edge)"
    and "DAList.lookup (nodes s) n = None"
  shows "(DAList.lookup (edges s) (e_id edge) = None \<longrightarrow>
            (\<exists>msg. add_edge s edge = Some (Inl (invalid_argument msg), s))) \<and>
         (DAList.lookup (edges s) (e_id edge) \<noteq> None \<longrightarrow>
            (\<exists>msg. update_edge s edge = Some (Inl (invalid_argument msg), s)))"
proof -
  from assms(2,3) have "validate_edge_consistency s edge \<noteq> None"
    by (auto simp: validate_None_iff)
  then obtain msg where "validate_edge_consistency s edge = Some (invalid_argument msg)"
    using validate_Some by fastforce
  with assms(1) show ?thesis
    by (auto simp: add_edge_def update_edge_def lock_guard_def)
qed

theorem add_edge_rejects_missing_member_witness:
  "\<not> substrate_mutex edge_test_substrate \<and>
   ''nonexistent'' \<in> set (connected_nodes (new_edge ''invalid'' [''node1'', ''nonexistent''])) \<and>
   DAList.lookup (nodes edge_test_substrate) ''nonexistent'' = None \<and>
   DAList.lookup (edges edge_test_substrate) ''invalid'' = None \<and>
   DAList.lookup (edges edge_test_substrate) ''edge1'' \<noteq> None \<and>
   (\<exists>msg. add_edge edge_test_substrate (new_edge ''invalid'' [''node1'', ''nonexistent''])
            = Some (Inl (invalid_argument msg), edge_test_substrate)) \<and>
   (\<exists>msg. update_edge edge_test_substrate (new_edge ''edge1'' [''node1'', ''nonexistent''])
            = Some (Inl (invalid_argument msg), edge_test_substrate))"
proof -
  have free: "\<not> substrate_mutex edge_test_substrate"
    by (simp add: edge_test_substrate_def Let_def)
  have missing: "DAList.lookup (nodes edge_test_substrate) ''nonexistent'' = None"
    by (simp add: edge_test_substrate_def Let_def DAList.lookup_update)
  have fresh: "DAList.lookup (edges edge_test_substrate) ''invalid'' = None"
    by (simp add: edge_test_substrate_def Let_def DAList.lookup_update)
  have stored: "DAList.lookup (edges edge_test_substrate) ''edge1'' \<noteq> None"
    by (simp add: edge_test_substrate_def Let_def DAList.lookup_update)
  have m1: "''nonexistent'' \<in> set (connected_nodes (new_edge ''invalid'' [''node1'', ''nonexistent'']))"
    and m2: "''nonexistent'' \<in> set (connected_nodes (new_edge ''edge1'' [''node1'', ''nonexistent'']))"
    by (simp_all add: new_edge_def)
  from add_edge_rejects_missing_member[OF free m1 missing] fresh
  have a: "\<exists>msg. add_edge edge_test_substrate (new_edge ''invalid'' [''node1'', ''nonexistent''])
            = Some (Inl (invalid_argument msg), edge_test_substrate)"
    by (simp add: new_edge_def)
  from add_edge_rejects_missing_member[OF free m2 missing] stored
  have u: "\<exists>msg. update_edge edge_test_substrate (new_edge ''edge1'' [''node1'', ''nonexistent''])
            = Some (Inl (invalid_argument msg), edge_test_substrate)"
    by (simp add: new_edge_def)
  from free m1 missing fresh stored a u show ?thesis by blast
qed

text \<open>
  C10. In \<^verbatim>\<open>add_edge\<close> the duplicate check comes first: for an edge id that is
  already stored the call returns false, throws nothing and changes nothing,
  whatever the members of the edge are; when \<^verbatim>\<open>add_edge\<close> throws, the edge id was
  not stored.
\<close>

theorem add_edge_duplicate_before_validation:
  assumes "\<not> substrate_mutex s"
  shows "(DAList.lookup (edges s) (e_id edge) \<noteq> None \<longrightarrow> add_edge s edge = Some (Inr False, s)) \<and>
         (\<forall>e s'. add_edge s edge = Some (Inl e, s') \<longrightarrow> DAList.lookup (edges s) (e_id edge) = None)"
  using assms by (auto simp: add_edge_def lock_guard_def split: option.splits)

theorem add_edge_duplicate_before_validation_witness:
  "\<not> substrate_mutex edge_test_substrate \<and>
   DAList.lookup (edges edge_test_substrate) ''edge1'' \<noteq> None \<and>
   DAList.lookup (nodes edge_test_substrate) ''nonexistent'' = None \<and>
   add_edge edge_test_substrate (new_edge ''edge1'' [''node1'', ''nonexistent''])
     = Some (Inr False, edge_test_substrate)"
proof -
  have free: "\<not> substrate_mutex edge_test_substrate"
    by (simp add: edge_test_substrate_def Let_def)
  have missing: "DAList.lookup (nodes edge_test_substrate) ''nonexistent'' = None"
    by (simp add: edge_test_substrate_def Let_def DAList.lookup_update)
  have stored: "DAList.lookup (edges edge_test_substrate) ''edge1'' \<noteq> None"
    by (simp add: edge_test_substrate_def Let_def DAList.lookup_update)
  from add_edge_duplicate_before_validation[OF free, of "new_edge ''edge1'' [''node1'', ''nonexistent'']"]
    stored
  have "add_edge edge_test_substrate (new_edge ''edge1'' [''node1'', ''nonexistent''])
     = Some (Inr False, edge_test_substrate)"
    by (simp add: new_edge_def)
  with free missing stored show ?thesis by blast
qed

subsection \<open>Cascading removal\<close>

lemma fold_erase_edge_nodes [simp]: "nodes (fold erase_edge ks s) = nodes s"
  by (induction ks arbitrary: s) (simp_all add: erase_edge_def)

lemma fold_erase_edge_mutex [simp]: "substrate_mutex (fold erase_edge ks s) = substrate_mutex s"
  by (induction ks arbitrary: s) (simp_all add: erase_edge_def)

lemma fold_erase_edge_p_nodes [simp]:
  "p_nodes (persistence (fold erase_edge ks s)) = p_nodes (persistence s)"
  by (induction ks arbitrary: s) (simp_all add: erase_edge_def persistence_remove_edge_def)

lemma fold_erase_edge_edges:
  "DAList.lookup (edges (fold erase_edge ks s)) k =
     (if k \<in> set ks then None else DAList.lookup (edges s) k)"
  by (induction ks arbitrary: s) (auto simp: erase_edge_def)

lemma fold_erase_edge_p_edges:
  "DAList.lookup (p_edges (persistence (fold erase_edge ks s))) k =
     (if k \<in> set ks then None else DAList.lookup (p_edges (persistence s)) k)"
  by (induction ks arbitrary: s) (auto simp: erase_edge_def persistence_remove_edge_def)

lemma edges_to_remove_iff:
  "k \<in> set (edges_to_remove s i) \<longleftrightarrow>
     (\<exists>e. DAList.lookup (edges s) k = Some e \<and> i \<in> set (connected_nodes e))"
  by (force simp: edges_to_remove_def in_impl_of_iff[symmetric])

lemma edges_to_remove_mutex [simp]:
  "edges_to_remove (s\<lparr>substrate_mutex := b\<rparr>) i = edges_to_remove s i"
  by (simp add: edges_to_remove_def)

lemma removal_substrate_reached: "run_ops new_substrate removal_ops = Some removal_substrate"
  by (simp add: removal_ops_def removal_substrate_def new_substrate_def add_node_def add_edge_def
        lock_guard_def validate_edge_consistency_def persistence_save_node_def
        persistence_save_edge_def new_node_def new_edge_def alist_eval Let_def)

text \<open>
  C2. With the mutex free, \<^verbatim>\<open>remove_node(i)\<close> of a stored node returns true; the
  edge table afterwards is the old one without exactly the edges that have \<open>i\<close>
  as a member; the node table is the old one without \<open>i\<close>, one entry smaller;
  the same edge ids and \<open>i\<close> are erased from the persistence strategy and
  nothing else is. For an id that is not stored it returns false.
\<close>

theorem remove_node_cascade:
  assumes "\<not> substrate_mutex s"
  shows "(DAList.lookup (nodes s) i \<noteq> None \<longrightarrow>
           (\<exists>s'. remove_node s i = Some (True, s') \<and>
              (\<forall>k. DAList.lookup (edges s') k =
                 (case DAList.lookup (edges s) k of
                    None \<Rightarrow> None
                  | Some e \<Rightarrow> if i \<in> set (connected_nodes e) then None else Some e)) \<and>
              DAList.lookup (nodes s') = (DAList.lookup (nodes s))(i := None) \<and>
              map_option Suc (node_count s') = node_count s \<and>
              (\<forall>k. DAList.lookup (p_edges (persistence s')) k =
                 (case DAList.lookup (edges s) k of
                    None \<Rightarrow> DAList.lookup (p_edges (persistence s)) k
                  | Some e \<Rightarrow> if i \<in> set (connected_nodes e) then None
                             else DAList.lookup (p_edges (persistence s)) k)) \<and>
              DAList.lookup (p_nodes (persistence s')) =
                (DAList.lookup (p_nodes (persistence s)))(i := None))) \<and>
         (DAList.lookup (nodes s) i = None \<longrightarrow> (\<exists>s'. remove_node s i = Some (False, s')))"
proof -
  define s1 where "s1 = fold erase_edge (edges_to_remove s i) (s\<lparr>substrate_mutex := True\<rparr>)"
  have e1: "DAList.lookup (edges s1) k =
      (case DAList.lookup (edges s) k of None \<Rightarrow> None
       | Some e \<Rightarrow> if i \<in> set (connected_nodes e) then None else Some e)" for k
    by (auto simp: s1_def fold_erase_edge_edges edges_to_remove_iff split: option.splits)
  have p1: "DAList.lookup (p_edges (persistence s1)) k =
      (case DAList.lookup (edges s) k of None \<Rightarrow> DAList.lookup (p_edges (persistence s)) k
       | Some e \<Rightarrow> if i \<in> set (connected_nodes e) then None
                  else DAList.lookup (p_edges (persistence s)) k)" for k
    by (auto simp: s1_def fold_erase_edge_p_edges edges_to_remove_iff split: option.splits)
  have n1: "nodes s1 = nodes s" "p_nodes (persistence s1) = p_nodes (persistence s)"
    by (simp_all add: s1_def)
  have rn: "remove_node s i =
     (if DAList.lookup (nodes s) i \<noteq> None
      then Some (True, s1\<lparr>nodes := DAList.delete i (nodes s),
             persistence := snd (persistence_remove_node (persistence s1) i),
             substrate_mutex := False\<rparr>)
      else Some (False, s1\<lparr>nodes := DAList.delete i (nodes s), substrate_mutex := False\<rparr>))"
    using assms n1 by (simp add: remove_node_def lock_guard_def Let_def s1_def)
  show ?thesis
  proof (intro conjI impI)
    assume present: "DAList.lookup (nodes s) i \<noteq> None"
    let ?s' = "s1\<lparr>nodes := DAList.delete i (nodes s),
             persistence := snd (persistence_remove_node (persistence s1) i),
             substrate_mutex := False\<rparr>"
    have "remove_node s i = Some (True, ?s')" using rn present by simp
    moreover have "\<forall>k. DAList.lookup (edges ?s') k =
                 (case DAList.lookup (edges s) k of
                    None \<Rightarrow> None
                  | Some e \<Rightarrow> if i \<in> set (connected_nodes e) then None else Some e)"
      using e1 by simp
    moreover have "DAList.lookup (nodes ?s') = (DAList.lookup (nodes s))(i := None)" by simp
    moreover have "map_option Suc (node_count ?s') = node_count s"
      using assms size_delete_present[OF present] by (simp add: node_count_def lock_guard_const_def)
    moreover have "\<forall>k. DAList.lookup (p_edges (persistence ?s')) k =
                 (case DAList.lookup (edges s) k of
                    None \<Rightarrow> DAList.lookup (p_edges (persistence s)) k
                  | Some e \<Rightarrow> if i \<in> set (connected_nodes e) then None
                             else DAList.lookup (p_edges (persistence s)) k)"
      using p1 by (simp add: persistence_remove_node_def)
    moreover have "DAList.lookup (p_nodes (persistence ?s')) =
                (DAList.lookup (p_nodes (persistence s)))(i := None)"
      using n1 by (simp add: persistence_remove_node_def)
    ultimately show "\<exists>s'. remove_node s i = Some (True, s') \<and>
              (\<forall>k. DAList.lookup (edges s') k =
                 (case DAList.lookup (edges s) k of
                    None \<Rightarrow> None
                  | Some e \<Rightarrow> if i \<in> set (connected_nodes e) then None else Some e)) \<and>
              DAList.lookup (nodes s') = (DAList.lookup (nodes s))(i := None) \<and>
              map_option Suc (node_count s') = node_count s \<and>
              (\<forall>k. DAList.lookup (p_edges (persistence s')) k =
                 (case DAList.lookup (edges s) k of
                    None \<Rightarrow> DAList.lookup (p_edges (persistence s)) k
                  | Some e \<Rightarrow> if i \<in> set (connected_nodes e) then None
                             else DAList.lookup (p_edges (persistence s)) k)) \<and>
              DAList.lookup (p_nodes (persistence s')) =
                (DAList.lookup (p_nodes (persistence s)))(i := None)"
      by blast
  next
    assume "DAList.lookup (nodes s) i = None"
    then show "\<exists>s'. remove_node s i = Some (False, s')" using rn by simp
  qed
qed

lemma removal_substrate_edges:
  "DAList.lookup (edges removal_substrate) =
     [''edge1'' \<mapsto> new_edge ''edge1'' [''node1'', ''node2''],
      ''edge2'' \<mapsto> new_edge ''edge2'' [''node1'', ''node3''],
      ''edge3'' \<mapsto> new_edge ''edge3'' [''node2'', ''node3'']]"
  by (rule ext) (simp add: removal_substrate_def Let_def DAList.lookup_update)

text \<open>
  The instance of the specification: nodes 1, 2, 3, edges \<open>e1 = {1,2}\<close>,
  \<open>e2 = {1,3}\<close>, \<open>e3 = {2,3}\<close>; removing node 1 leaves exactly \<open>e3\<close> and two nodes.
\<close>

theorem remove_node_cascade_witness:
  "\<not> substrate_mutex removal_substrate \<and>
   DAList.lookup (nodes removal_substrate) ''node1'' \<noteq> None \<and>
   (\<exists>s'. remove_node removal_substrate ''node1'' = Some (True, s') \<and>
      dom (DAList.lookup (edges s')) = {''edge3''} \<and>
      DAList.lookup (edges s') ''edge3'' = Some (new_edge ''edge3'' [''node2'', ''node3'']) \<and>
      node_count s' = Some 2)"
proof -
  have free: "\<not> substrate_mutex removal_substrate"
    by (simp add: removal_substrate_def Let_def)
  have present: "DAList.lookup (nodes removal_substrate) ''node1'' \<noteq> None"
    by (simp add: removal_substrate_def Let_def DAList.lookup_update)
  have count: "node_count removal_substrate = Some 3"
    by (simp add: node_count_def lock_guard_const_def removal_substrate_def Let_def alist_eval)
  from remove_node_cascade[OF free, of "''node1''"] present obtain s' where
    r: "remove_node removal_substrate ''node1'' = Some (True, s')"
    and e: "\<And>k. DAList.lookup (edges s') k =
                 (case DAList.lookup (edges removal_substrate) k of
                    None \<Rightarrow> None
                  | Some e \<Rightarrow> if ''node1'' \<in> set (connected_nodes e) then None else Some e)"
    and c: "map_option Suc (node_count s') = node_count removal_substrate"
    by blast
  have "dom (DAList.lookup (edges s')) = {''edge3''}"
    by (auto simp: dom_def e removal_substrate_edges new_edge_def split: if_splits)
  moreover have "DAList.lookup (edges s') ''edge3'' = Some (new_edge ''edge3'' [''node2'', ''node3''])"
    by (simp add: e removal_substrate_edges new_edge_def)
  moreover from c count have "node_count s' = Some 2" by auto
  ultimately show ?thesis using free present r by blast
qed

subsection \<open>Referential integrity\<close>

lemma referential_integrity_iff:
  "referential_integrity s \<longleftrightarrow>
     (\<forall>k e n. DAList.lookup (edges s) k = Some e \<longrightarrow> n \<in> set (connected_nodes e)
        \<longrightarrow> DAList.lookup (nodes s) n \<noteq> None)"
  unfolding referential_integrity_def by (fastforce simp: in_impl_of_iff[symmetric])

lemma add_node_inv:
  assumes "\<not> substrate_mutex s" "referential_integrity s"
  shows "\<exists>s'. apply_op s (AddNode node) = Some s' \<and> \<not> substrate_mutex s' \<and> referential_integrity s'"
  using assms by (auto simp: add_node_def lock_guard_def referential_integrity_iff DAList.lookup_update)

lemma update_node_inv:
  assumes "\<not> substrate_mutex s" "referential_integrity s"
  shows "\<exists>s'. apply_op s (UpdateNode node) = Some s' \<and> \<not> substrate_mutex s' \<and> referential_integrity s'"
  using assms by (auto simp: update_node_def lock_guard_def referential_integrity_iff DAList.lookup_update)

lemma remove_node_inv:
  assumes "\<not> substrate_mutex s" "referential_integrity s"
  shows "\<exists>s'. apply_op s (RemoveNode i) = Some s' \<and> \<not> substrate_mutex s' \<and> referential_integrity s'"
  using assms
  by (auto simp: remove_node_def lock_guard_def referential_integrity_iff Let_def
        fold_erase_edge_edges edges_to_remove_iff split: if_splits)

lemma add_edge_inv:
  assumes "\<not> substrate_mutex s" "referential_integrity s"
  shows "\<exists>s'. apply_op s (AddEdge edge) = Some s' \<and> \<not> substrate_mutex s' \<and> referential_integrity s'"
  using assms
  by (auto simp: add_edge_def lock_guard_def referential_integrity_iff DAList.lookup_update
        validate_None_iff split: option.splits if_splits)

lemma update_edge_inv:
  assumes "\<not> substrate_mutex s" "referential_integrity s"
  shows "\<exists>s'. apply_op s (UpdateEdge edge) = Some s' \<and> \<not> substrate_mutex s' \<and> referential_integrity s'"
  using assms
  by (auto simp: update_edge_def lock_guard_def referential_integrity_iff DAList.lookup_update
        validate_None_iff split: option.splits if_splits)

lemma remove_edge_inv:
  assumes "\<not> substrate_mutex s" "referential_integrity s"
  shows "\<exists>s'. apply_op s (RemoveEdge i) = Some s' \<and> \<not> substrate_mutex s' \<and> referential_integrity s'"
  using assms
  by (auto simp: remove_edge_def lock_guard_def referential_integrity_iff Let_def split: if_splits)

lemma apply_op_inv:
  assumes "\<not> substrate_mutex s" "referential_integrity s"
  shows "\<exists>s'. apply_op s x = Some s' \<and> \<not> substrate_mutex s' \<and> referential_integrity s'"
proof (cases x)
  case (AddNode n) then show ?thesis using add_node_inv[OF assms] by blast
next
  case (UpdateNode n) then show ?thesis using update_node_inv[OF assms] by blast
next
  case (RemoveNode i) then show ?thesis using remove_node_inv[OF assms] by blast
next
  case (AddEdge e) then show ?thesis using add_edge_inv[OF assms] by blast
next
  case (UpdateEdge e) then show ?thesis using update_edge_inv[OF assms] by blast
next
  case (RemoveEdge i) then show ?thesis using remove_edge_inv[OF assms] by blast
qed

lemma run_ops_inv:
  "\<not> substrate_mutex s \<Longrightarrow> referential_integrity s \<Longrightarrow>
     \<exists>s'. run_ops s xs = Some s' \<and> \<not> substrate_mutex s' \<and> referential_integrity s'"
proof (induction xs arbitrary: s)
  case Nil
  then show ?case by simp
next
  case (Cons x xs)
  from apply_op_inv[OF Cons.prems, of x] obtain s1 where
    s1: "apply_op s x = Some s1" "\<not> substrate_mutex s1" "referential_integrity s1" by blast
  from Cons.IH[OF s1(2,3)] s1(1) show ?case by simp
qed

lemma new_substrate_inv: "\<not> substrate_mutex new_substrate \<and> referential_integrity new_substrate"
  by (simp add: new_substrate_def referential_integrity_def DAList.empty.rep_eq)

text \<open>
  C1. Every sequence of \<^verbatim>\<open>add_node\<close>, \<^verbatim>\<open>update_node\<close>, \<^verbatim>\<open>remove_node\<close>,
  \<^verbatim>\<open>add_edge\<close>, \<^verbatim>\<open>update_edge\<close> and \<^verbatim>\<open>remove_edge\<close> calls on a new substrate
  runs to its end, and in the substrate it leaves every member of every stored
  edge is a key of the node table. The sequence is arbitrary, so this holds after
  each of its calls.
\<close>

theorem referential_integrity_invariant:
  "\<exists>s. run_ops new_substrate ops = Some s \<and> referential_integrity s"
  using run_ops_inv[of new_substrate ops] new_substrate_inv by blast

theorem referential_integrity_invariant_witness:
  "\<exists>s. run_ops new_substrate mixed_ops = Some s \<and> referential_integrity s \<and>
       map fst (DAList.impl_of (nodes s)) = [''node2''] \<and> DAList.impl_of (edges s) = []"
proof -
  from referential_integrity_invariant[of mixed_ops] obtain s where
    s: "run_ops new_substrate mixed_ops = Some s" and ri: "referential_integrity s" by blast
  have "run_ops new_substrate mixed_ops =
          Some \<lparr>nodes = DAList.update ''node2'' (new_node ''node2'' ''Second Node'') DAList.empty,
                edges = DAList.empty,
                persistence =
                  \<lparr>p_nodes = DAList.update ''node2'' (new_node ''node2'' ''Second Node'') DAList.empty,
                   p_edges = DAList.empty\<rparr>,
                substrate_mutex = False\<rparr>"
    by (simp add: mixed_ops_def new_substrate_def add_node_def add_edge_def remove_node_def
        lock_guard_def validate_edge_consistency_def persistence_save_node_def
        persistence_save_edge_def persistence_remove_node_def persistence_remove_edge_def
        edges_to_remove_def erase_edge_def new_node_def new_edge_def alist_eval Let_def)
  with s have "map fst (DAList.impl_of (nodes s)) = [''node2'']" "DAList.impl_of (edges s) = []"
    by (auto simp: alist_eval)
  with s ri show ?thesis by simp
qed

subsection \<open>Termination of the traversal\<close>

lemma finite_members_of [simp]: "finite (members_of es)"
  by (auto simp: members_of_def)

lemma visit_neighbor_measure:
  assumes "n \<in> members_of es"
  shows "bfs_measure es (visit_neighbor c h n st) \<le> bfs_measure es st"
proof (cases "n \<noteq> c \<and> n \<notin> visited st")
  case True
  then have "n \<in> members_of es - visited st" using assms by simp
  then have "card ((members_of es - visited st) - {n}) < card (members_of es - visited st)"
    by (intro card_Diff1_less) simp_all
  moreover have "members_of es - insert n (visited st) = (members_of es - visited st) - {n}"
    by auto
  ultimately have "card (members_of es - insert n (visited st)) < card (members_of es - visited st)"
    by simp
  with True show ?thesis by (simp add: visit_neighbor_def bfs_measure_def)
next
  case False
  then show ?thesis by (auto simp: visit_neighbor_def)
qed

lemma fold_visit_neighbor_measure:
  "set ns \<subseteq> members_of es \<Longrightarrow>
     bfs_measure es (fold (visit_neighbor c h) ns st) \<le> bfs_measure es st"
proof (induction ns arbitrary: st)
  case Nil
  then show ?case by simp
next
  case (Cons n ns)
  have "bfs_measure es (fold (visit_neighbor c h) ns (visit_neighbor c h n st))
          \<le> bfs_measure es (visit_neighbor c h n st)"
    using Cons by simp
  also have "\<dots> \<le> bfs_measure es st"
    using Cons.prems by (simp add: visit_neighbor_measure)
  finally show ?case by simp
qed

lemma visit_edge_measure:
  "x \<in> set es \<Longrightarrow> bfs_measure es (visit_edge c h x st) \<le> bfs_measure es st"
proof -
  assume x: "x \<in> set es"
  obtain k e where xe: "x = (k, e)" by (cases x)
  with x have "set (connected_nodes e) \<subseteq> members_of es"
    by (auto simp: members_of_def)
  then show ?thesis
    using xe by (simp add: visit_edge_def fold_visit_neighbor_measure)
qed

lemma fold_visit_edge_measure:
  "set xs \<subseteq> set es \<Longrightarrow> bfs_measure es (fold (visit_edge c h) xs st) \<le> bfs_measure es st"
proof (induction xs arbitrary: st)
  case Nil
  then show ?case by simp
next
  case (Cons x xs)
  have "bfs_measure es (fold (visit_edge c h) xs (visit_edge c h x st))
          \<le> bfs_measure es (visit_edge c h x st)"
    using Cons by simp
  also have "\<dots> \<le> bfs_measure es st"
    using Cons.prems by (simp add: visit_edge_measure)
  finally show ?case by simp
qed

termination bfs_loop
proof (relation "measure (\<lambda>(es, max_hops, st). bfs_measure es st)")
  show "wf (measure (\<lambda>(es, max_hops, st). bfs_measure es st))" by simp
next
  fix es :: "(EdgeId \<times> HyperEdge) list" and max_hops :: int and st :: bfs_state
    and x21 x22 x y
  assume "queue st = x21 # x22"
  then show "((es, max_hops, st\<lparr>queue := x22\<rparr>), es, max_hops, st)
               \<in> measure (\<lambda>(es, max_hops, st). bfs_measure es st)"
    by (simp add: bfs_measure_def)
next
  fix es :: "(EdgeId \<times> HyperEdge) list" and max_hops :: int and st :: bfs_state
    and x21 x22 x y
  assume q: "queue st = x21 # x22"
  have "bfs_measure es (fold (visit_edge x y) es (st\<lparr>queue := x22\<rparr>))
          \<le> bfs_measure es (st\<lparr>queue := x22\<rparr>)"
    by (rule fold_visit_edge_measure) simp
  also have "\<dots> < bfs_measure es st" using q by (simp add: bfs_measure_def)
  finally show "((es, max_hops, fold (visit_edge x y) es (st\<lparr>queue := x22\<rparr>)), es, max_hops, st)
               \<in> measure (\<lambda>(es, max_hops, st). bfs_measure es st)"
    by simp
qed

declare bfs_loop.simps [simp del]

subsection \<open>What the traversal returns\<close>

lemma co_members_Nil [simp]: "co_members [] c = {}"
  by (simp add: co_members_def)

lemma co_members_Cons:
  "co_members ((k, e) # es) c =
     (if c \<in> set (connected_nodes e) then set (connected_nodes e) - {c} else {}) \<union> co_members es c"
  by (auto simp: co_members_def)

lemma fold_visit_neighbor:
  "\<exists>new. fold (visit_neighbor c h) ns \<lparr>reachable = r, visited = V, queue = q\<rparr> =
            \<lparr>reachable = r @ new, visited = V \<union> set new,
             queue = q @ map (\<lambda>n. (n, h + 1)) new\<rparr> \<and>
          distinct new \<and> set new = (set ns - {c}) - V"
proof (induction ns arbitrary: r V q)
  case Nil
  show ?case by (rule exI[of _ "[]"]) simp
next
  case (Cons n ns)
  show ?case
  proof (cases "n \<noteq> c \<and> n \<notin> V")
    case True
    from Cons.IH[of "r @ [n]" "insert n V" "q @ [(n, h + 1)]"] obtain new where
      new: "fold (visit_neighbor c h) ns
              \<lparr>reachable = r @ [n], visited = insert n V, queue = q @ [(n, h + 1)]\<rparr> =
            \<lparr>reachable = (r @ [n]) @ new, visited = insert n V \<union> set new,
             queue = (q @ [(n, h + 1)]) @ map (\<lambda>n. (n, h + 1)) new\<rparr>"
      "distinct new" "set new = (set ns - {c}) - insert n V"
      by blast
    show ?thesis
    proof (intro exI[of _ "n # new"] conjI)
      show "fold (visit_neighbor c h) (n # ns) \<lparr>reachable = r, visited = V, queue = q\<rparr> =
            \<lparr>reachable = r @ n # new, visited = V \<union> set (n # new),
             queue = q @ map (\<lambda>n. (n, h + 1)) (n # new)\<rparr>"
        using True new(1) by (simp add: visit_neighbor_def)
      show "distinct (n # new)" using new(2,3) by simp
      show "set (n # new) = set (n # ns) - {c} - V" using True new(3) by auto
    qed
  next
    case False
    from Cons.IH[of r V q] obtain new where
      new: "fold (visit_neighbor c h) ns \<lparr>reachable = r, visited = V, queue = q\<rparr> =
            \<lparr>reachable = r @ new, visited = V \<union> set new,
             queue = q @ map (\<lambda>n. (n, h + 1)) new\<rparr>"
      "distinct new" "set new = (set ns - {c}) - V"
      by blast
    show ?thesis
    proof (intro exI[of _ new] conjI)
      show "fold (visit_neighbor c h) (n # ns) \<lparr>reachable = r, visited = V, queue = q\<rparr> =
            \<lparr>reachable = r @ new, visited = V \<union> set new,
             queue = q @ map (\<lambda>n. (n, h + 1)) new\<rparr>"
        using False new(1) by (auto simp: visit_neighbor_def)
      show "distinct new" by (rule new(2))
      show "set new = set (n # ns) - {c} - V" using False new(3) by auto
    qed
  qed
qed

lemma fold_visit_edge:
  "\<exists>new. fold (visit_edge c h) es \<lparr>reachable = r, visited = V, queue = q\<rparr> =
            \<lparr>reachable = r @ new, visited = V \<union> set new,
             queue = q @ map (\<lambda>n. (n, h + 1)) new\<rparr> \<and>
          distinct new \<and> set new = co_members es c - V"
proof (induction es arbitrary: r V q)
  case Nil
  show ?case by (rule exI[of _ "[]"]) simp
next
  case (Cons x es)
  obtain k e where x: "x = (k, e)" by (cases x)
  show ?case
  proof (cases "c \<in> set (connected_nodes e)")
    case True
    from fold_visit_neighbor[of c h "connected_nodes e" r V q] obtain new1 where
      new1: "fold (visit_neighbor c h) (connected_nodes e)
               \<lparr>reachable = r, visited = V, queue = q\<rparr> =
             \<lparr>reachable = r @ new1, visited = V \<union> set new1,
              queue = q @ map (\<lambda>n. (n, h + 1)) new1\<rparr>"
      "distinct new1" "set new1 = (set (connected_nodes e) - {c}) - V"
      by blast
    from Cons.IH[of "r @ new1" "V \<union> set new1" "q @ map (\<lambda>n. (n, h + 1)) new1"] obtain new2 where
      new2: "fold (visit_edge c h) es
               \<lparr>reachable = r @ new1, visited = V \<union> set new1,
                queue = q @ map (\<lambda>n. (n, h + 1)) new1\<rparr> =
             \<lparr>reachable = (r @ new1) @ new2, visited = (V \<union> set new1) \<union> set new2,
              queue = (q @ map (\<lambda>n. (n, h + 1)) new1) @ map (\<lambda>n. (n, h + 1)) new2\<rparr>"
      "distinct new2" "set new2 = co_members es c - (V \<union> set new1)"
      by blast
    show ?thesis
    proof (intro exI[of _ "new1 @ new2"] conjI)
      show "fold (visit_edge c h) (x # es) \<lparr>reachable = r, visited = V, queue = q\<rparr> =
            \<lparr>reachable = r @ new1 @ new2, visited = V \<union> set (new1 @ new2),
             queue = q @ map (\<lambda>n. (n, h + 1)) (new1 @ new2)\<rparr>"
        using True x new1(1) new2(1) by (simp add: visit_edge_def Un_assoc)
      show "distinct (new1 @ new2)" using new1(2) new2(2,3) by auto
      show "set (new1 @ new2) = co_members (x # es) c - V"
        using True x new1(3) new2(3) by (auto simp: co_members_Cons)
    qed
  next
    case False
    from Cons.IH[of r V q] obtain new where
      new: "fold (visit_edge c h) es \<lparr>reachable = r, visited = V, queue = q\<rparr> =
            \<lparr>reachable = r @ new, visited = V \<union> set new,
             queue = q @ map (\<lambda>n. (n, h + 1)) new\<rparr>"
      "distinct new" "set new = co_members es c - V"
      by blast
    show ?thesis
    proof (intro exI[of _ new] conjI)
      show "fold (visit_edge c h) (x # es) \<lparr>reachable = r, visited = V, queue = q\<rparr> =
            \<lparr>reachable = r @ new, visited = V \<union> set new,
             queue = q @ map (\<lambda>n. (n, h + 1)) new\<rparr>"
        using False x new(1) by (simp add: visit_edge_def)
      show "distinct new" by (rule new(2))
      show "set new = co_members (x # es) c - V"
        using False x new(3) by (simp add: co_members_Cons)
    qed
  qed
qed

lemma bfs_loop_skip:
  "max_hops \<le> h \<Longrightarrow>
     bfs_loop es max_hops \<lparr>reachable = r, visited = V, queue = map (\<lambda>n. (n, h)) ys\<rparr> = r"
proof (induction ys)
  case Nil
  show ?case by (subst bfs_loop.simps) simp
next
  case (Cons y ys)
  then show ?case by (subst bfs_loop.simps) simp
qed

lemma bfs_loop_level:
  "\<exists>new. bfs_loop es 2
            \<lparr>reachable = r, visited = V,
             queue = map (\<lambda>n. (n, 1)) xs @ map (\<lambda>n. (n, 2)) ys\<rparr> = r @ new \<and>
          distinct new \<and> set new = (\<Union>x \<in> set xs. co_members es x) - V"
proof (induction xs arbitrary: r V ys)
  case Nil
  show ?case by (rule exI[of _ "[]"]) (simp add: bfs_loop_skip)
next
  case (Cons x xs)
  from fold_visit_edge[of x 1 es r V "map (\<lambda>n. (n, 1)) xs @ map (\<lambda>n. (n, 2)) ys"]
  obtain new1 where
    new1: "fold (visit_edge x 1) es
             \<lparr>reachable = r, visited = V,
              queue = map (\<lambda>n. (n, 1)) xs @ map (\<lambda>n. (n, 2)) ys\<rparr> =
           \<lparr>reachable = r @ new1, visited = V \<union> set new1,
            queue = (map (\<lambda>n. (n, 1)) xs @ map (\<lambda>n. (n, 2)) ys) @ map (\<lambda>n. (n, 1 + 1)) new1\<rparr>"
    "distinct new1" "set new1 = co_members es x - V"
    by blast
  from Cons.IH[of "r @ new1" "V \<union> set new1" "ys @ new1"] obtain new2 where
    new2: "bfs_loop es 2
             \<lparr>reachable = r @ new1, visited = V \<union> set new1,
              queue = map (\<lambda>n. (n, 1)) xs @ map (\<lambda>n. (n, 2)) (ys @ new1)\<rparr> = (r @ new1) @ new2"
    "distinct new2" "set new2 = (\<Union>x \<in> set xs. co_members es x) - (V \<union> set new1)"
    by blast
  show ?case
  proof (intro exI[of _ "new1 @ new2"] conjI)
    show "bfs_loop es 2
            \<lparr>reachable = r, visited = V,
             queue = map (\<lambda>n. (n, 1)) (x # xs) @ map (\<lambda>n. (n, 2)) ys\<rparr> = r @ new1 @ new2"
      using new1(1) new2(1) by (subst bfs_loop.simps) simp
    show "distinct (new1 @ new2)" using new1(2) new2(2,3) by auto
    show "set (new1 @ new2) = (\<Union>x \<in> set (x # xs). co_members es x) - V"
      using new1(3) new2(3) by auto
  qed
qed

lemma get_reachable_nodes_two_hops:
  "distinct (get_reachable_nodes s source 2) \<and>
   set (get_reachable_nodes s source 2) =
     (co_members (DAList.impl_of (edges s)) source \<union>
      (\<Union>x \<in> co_members (DAList.impl_of (edges s)) source. co_members (DAList.impl_of (edges s)) x))
       - {source}"
proof -
  let ?es = "DAList.impl_of (edges s)"
  from fold_visit_edge[of source 0 ?es "[]" "{source}" "[]"] obtain new1 where
    new1: "fold (visit_edge source 0) ?es \<lparr>reachable = [], visited = {source}, queue = []\<rparr> =
           \<lparr>reachable = [] @ new1, visited = {source} \<union> set new1,
            queue = [] @ map (\<lambda>n. (n, 0 + 1)) new1\<rparr>"
    "distinct new1" "set new1 = co_members ?es source - {source}"
    by blast
  from bfs_loop_level[of ?es new1 "{source} \<union> set new1" new1 "[]"] obtain new2 where
    new2: "bfs_loop ?es 2
             \<lparr>reachable = new1, visited = {source} \<union> set new1,
              queue = map (\<lambda>n. (n, 1)) new1 @ map (\<lambda>n. (n, 2)) []\<rparr> = new1 @ new2"
    "distinct new2" "set new2 = (\<Union>x \<in> set new1. co_members ?es x) - ({source} \<union> set new1)"
    by blast
  have "get_reachable_nodes s source 2 = new1 @ new2"
    unfolding get_reachable_nodes_def using new1(1) new2(1)
    by (subst bfs_loop.simps) simp
  moreover have "distinct (new1 @ new2)" using new1(2) new2(2,3) by auto
  moreover have "set (new1 @ new2) =
     (co_members ?es source \<union> (\<Union>x \<in> co_members ?es source. co_members ?es x)) - {source}"
    using new1(3) new2(3) by (auto simp: co_members_def)
  ultimately show ?thesis by simp
qed

lemma co_members_one_hop: "b \<in> co_members (DAList.impl_of (edges s)) a \<longleftrightarrow> one_hop s a b"
  by (auto simp: co_members_def one_hop_def)

lemma one_hop_member: "one_hop s a b \<Longrightarrow> b \<in> set (all_members s)"
  by (fastforce simp: one_hop_def all_members_def)

lemma reachable_iff_within_two_hops:
  "n \<in> set (get_reachable_nodes s source 2) \<longleftrightarrow> within_two_hops s source n"
proof -
  have "n \<in> set (get_reachable_nodes s source 2) \<longleftrightarrow>
          n \<noteq> source \<and> (one_hop s source n \<or> (\<exists>m. one_hop s source m \<and> one_hop s m n))"
    using get_reachable_nodes_two_hops[of s source] by (auto simp: co_members_one_hop)
  also have "\<dots> \<longleftrightarrow> within_two_hops s source n"
    unfolding within_two_hops_def using one_hop_member by blast
  finally show ?thesis .
qed

lemma one_hop_cong: "edges s' = edges s \<Longrightarrow> one_hop s' = one_hop s"
  by (intro ext) (simp add: one_hop_def)

lemma within_two_hops_cong: "edges s' = edges s \<Longrightarrow> within_two_hops s' = within_two_hops s"
  by (intro ext) (simp add: within_two_hops_def all_members_def one_hop_def)

subsection \<open>Activation propagation\<close>

lemma receive_activation_nodes:
  "DAList.lookup (nodes (receive_activation a t s)) n =
     (if n = t
      then map_option (\<lambda>node. node\<lparr>activation_level := activation_level node + a * 0.7\<rparr>)
             (DAList.lookup (nodes s) n)
      else DAList.lookup (nodes s) n)"
  by (auto simp: receive_activation_def DAList.lookup_update Let_def split: option.splits)

lemma fold_receive_activation_nodes:
  "distinct ts \<Longrightarrow>
   DAList.lookup (nodes (fold (receive_activation a) ts s)) n =
     (if n \<in> set ts
      then map_option (\<lambda>node. node\<lparr>activation_level := activation_level node + a * 0.7\<rparr>)
             (DAList.lookup (nodes s) n)
      else DAList.lookup (nodes s) n)"
proof (induction ts arbitrary: s)
  case Nil
  then show ?case by simp
next
  case (Cons t ts)
  then show ?case by (auto simp: receive_activation_nodes)
qed

text \<open>
  C5. With the mutex free, \<^verbatim>\<open>propagate_activation(source_id, a)\<close> on a stored source
  leaves, for every stored node: activation \<open>a\<close> at the source, the old
  activation plus \<open>a * 0.7\<close> at a node within two hops of the source, the old
  activation anywhere else. On a source that is not stored it changes nothing.
\<close>

theorem propagate_activation_two_hops:
  assumes "\<not> substrate_mutex s"
  shows "(DAList.lookup (nodes s) source_id \<noteq> None \<longrightarrow>
           (\<exists>s'. propagate_activation s source_id a = Some ((), s') \<and>
              (\<forall>n node. DAList.lookup (nodes s) n = Some node \<longrightarrow>
                 get_node_activation s' n =
                   Some (if n = source_id then a
                         else if within_two_hops s source_id n
                              then activation_level node + a * 0.7
                              else activation_level node)))) \<and>
         (DAList.lookup (nodes s) source_id = None \<longrightarrow>
            propagate_activation s source_id a = Some ((), s))"
proof (intro conjI impI)
  assume "DAList.lookup (nodes s) source_id = None"
  with assms show "propagate_activation s source_id a = Some ((), s)"
    by (simp add: propagate_activation_def lock_guard_def)
next
  assume "DAList.lookup (nodes s) source_id \<noteq> None"
  then obtain source where source: "DAList.lookup (nodes s) source_id = Some source" by blast
  define s1 where "s1 = s\<lparr>substrate_mutex := True,
      nodes := DAList.update source_id (source\<lparr>activation_level := a\<rparr>) (nodes s)\<rparr>"
  define ts where "ts = get_reachable_nodes s1 source_id 2"
  define s' where "s' = (fold (receive_activation a) ts s1)\<lparr>substrate_mutex := False\<rparr>"
  have run: "propagate_activation s source_id a = Some ((), s')"
    using assms source
    by (simp add: propagate_activation_def lock_guard_def Let_def s1_def ts_def s'_def)
  have "edges s1 = edges s" by (simp add: s1_def)
  then have "within_two_hops s1 = within_two_hops s" by (rule within_two_hops_cong)
  then have ts: "n \<in> set ts \<longleftrightarrow> within_two_hops s source_id n" for n
    by (simp add: ts_def reachable_iff_within_two_hops)
  have dist: "distinct ts"
    using get_reachable_nodes_two_hops[of s1 source_id] by (simp add: ts_def)
  have src: "\<not> within_two_hops s source_id source_id"
    by (simp add: within_two_hops_def)
  have look: "DAList.lookup (nodes s') n =
     (if n \<in> set ts
      then map_option (\<lambda>node. node\<lparr>activation_level := activation_level node + a * 0.7\<rparr>)
             (DAList.lookup (nodes s1) n)
      else DAList.lookup (nodes s1) n)" for n
    using fold_receive_activation_nodes[OF dist] by (simp add: s'_def)
  have look1: "DAList.lookup (nodes s1) n =
     (if n = source_id then Some (source\<lparr>activation_level := a\<rparr>) else DAList.lookup (nodes s) n)"
    for n
    by (simp add: s1_def DAList.lookup_update)
  have free: "\<not> substrate_mutex s'" by (simp add: s'_def)
  have "get_node_activation s' n =
          Some (if n = source_id then a
                else if within_two_hops s source_id n
                     then activation_level node + a * 0.7
                     else activation_level node)"
    if "DAList.lookup (nodes s) n = Some node" for n node
    using that free src
    by (auto simp: get_node_activation_def lock_guard_const_def look look1 ts)
  with run show "\<exists>s'. propagate_activation s source_id a = Some ((), s') \<and>
              (\<forall>n node. DAList.lookup (nodes s) n = Some node \<longrightarrow>
                 get_node_activation s' n =
                   Some (if n = source_id then a
                         else if within_two_hops s source_id n
                              then activation_level node + a * 0.7
                              else activation_level node))"
    by blast
qed

lemma chain_substrate_reached: "run_ops new_substrate chain_ops = Some chain_substrate"
  by (simp add: chain_ops_def chain_substrate_def new_substrate_def add_node_def add_edge_def
        lock_guard_def validate_edge_consistency_def persistence_save_node_def
        persistence_save_edge_def new_node_def new_edge_def alist_eval Let_def)

lemma chain_substrate_edges:
  "DAList.impl_of (edges chain_substrate) =
     [(''edge1'', new_edge ''edge1'' [''node1'', ''node2'']),
      (''edge2'', new_edge ''edge2'' [''node2'', ''node3'']),
      (''edge3'', new_edge ''edge3'' [''node3'', ''node4''])]"
  by (simp add: chain_substrate_def Let_def alist_eval)

lemma chain_substrate_nodes:
  "DAList.lookup (nodes chain_substrate) =
     [''node1'' \<mapsto> new_node ''node1'' ''Source Node'',
      ''node2'' \<mapsto> new_node ''node2'' ''Target Node 1'',
      ''node3'' \<mapsto> new_node ''node3'' ''Target Node 2'',
      ''node4'' \<mapsto> new_node ''node4'' ''Distant Node'']"
  by (rule ext) (simp add: chain_substrate_def Let_def DAList.lookup_update)

lemma chain_two_hops:
  "within_two_hops chain_substrate ''node1'' ''node2''"
  "within_two_hops chain_substrate ''node1'' ''node3''"
  "\<not> within_two_hops chain_substrate ''node1'' ''node4''"
  by (simp_all add: within_two_hops_def one_hop_def all_members_def chain_substrate_edges new_edge_def)

theorem propagate_activation_two_hops_witness:
  "\<not> substrate_mutex chain_substrate \<and>
   DAList.lookup (nodes chain_substrate) ''node1'' \<noteq> None \<and>
   (\<exists>s'. propagate_activation chain_substrate ''node1'' 1 = Some ((), s') \<and>
      get_node_activation s' ''node1'' = Some 1 \<and>
      get_node_activation s' ''node2'' = Some 0.7 \<and>
      get_node_activation s' ''node3'' = Some 0.7 \<and>
      get_node_activation s' ''node4'' = Some 0)"
proof -
  have free: "\<not> substrate_mutex chain_substrate"
    by (simp add: chain_substrate_def Let_def)
  have present: "DAList.lookup (nodes chain_substrate) ''node1'' \<noteq> None"
    by (simp add: chain_substrate_nodes)
  from propagate_activation_two_hops[OF free, of "''node1''" 1] present obtain s' where
    run: "propagate_activation chain_substrate ''node1'' 1 = Some ((), s')"
    and act: "\<And>n node. DAList.lookup (nodes chain_substrate) n = Some node \<Longrightarrow>
                 get_node_activation s' n =
                   Some (if n = ''node1'' then 1
                         else if within_two_hops chain_substrate ''node1'' n
                              then activation_level node + 1 * 0.7
                              else activation_level node)"
    by blast
  have "get_node_activation s' ''node1'' = Some 1"
    using act[of "''node1''" "new_node ''node1'' ''Source Node''"]
    by (simp add: chain_substrate_nodes)
  moreover have "get_node_activation s' ''node2'' = Some 0.7"
    using act[of "''node2''" "new_node ''node2'' ''Target Node 1''"] chain_two_hops
    by (simp add: chain_substrate_nodes new_node_def)
  moreover have "get_node_activation s' ''node3'' = Some 0.7"
    using act[of "''node3''" "new_node ''node3'' ''Target Node 2''"] chain_two_hops
    by (simp add: chain_substrate_nodes new_node_def)
  moreover have "get_node_activation s' ''node4'' = Some 0"
    using act[of "''node4''" "new_node ''node4'' ''Distant Node''"] chain_two_hops
    by (simp add: chain_substrate_nodes new_node_def)
  ultimately show ?thesis using free present run by blast
qed

subsection \<open>Clustering coefficient and density\<close>

lemma triangle_substrate_reached: "run_ops new_substrate triangle_ops = Some triangle_substrate"
  by (simp add: triangle_ops_def triangle_substrate_def new_substrate_def add_node_def add_edge_def
        lock_guard_def validate_edge_consistency_def persistence_save_node_def
        persistence_save_edge_def new_node_def new_edge_def alist_eval Let_def)

lemma get_connected_nodes_held: "substrate_mutex s \<Longrightarrow> get_connected_nodes s i = None"
  by (simp add: get_connected_nodes_def lock_guard_const_def)

lemma calculate_clustering_coefficient_None: "calculate_clustering_coefficient s i = None"
  by (simp add: calculate_clustering_coefficient_def lock_guard_const_def get_connected_nodes_held)

lemma calculate_substrate_density_formula:
  "\<not> substrate_mutex s \<Longrightarrow>
     calculate_substrate_density s =
       Some (if size (nodes s) < 2 then 0
             else real (size (edges s)) / real (size (nodes s) choose 2))"
  by (simp add: calculate_substrate_density_def lock_guard_const_def Let_def choose_two)

lemma triangle_density: "calculate_substrate_density triangle_substrate = Some 1"
  by (simp add: calculate_substrate_density_def lock_guard_const_def Let_def
        triangle_substrate_def alist_eval)

text \<open>
  C6. \<^verbatim>\<open>calculate_clustering_coefficient\<close> takes \<^verbatim>\<open>substrate_mutex_\<close> and then calls
  the public \<^verbatim>\<open>get_connected_nodes\<close>, which takes it again: on the triangle of the
  test the call gives no result for any of the three nodes, where the
  specification and the test expect \<open>1.0\<close>. The neighbours of \<open>nodeA\<close> are the two
  other nodes, and the density of the triangle is \<open>1\<close>.
\<close>

theorem clustering_coefficient_never_returns:
  "calculate_clustering_coefficient triangle_substrate ''nodeA'' = None \<and>
   calculate_clustering_coefficient triangle_substrate ''nodeB'' = None \<and>
   calculate_clustering_coefficient triangle_substrate ''nodeC'' = None \<and>
   get_connected_nodes triangle_substrate ''nodeA'' = Some [''nodeB'', ''nodeC''] \<and>
   calculate_substrate_density triangle_substrate = Some 1"
proof -
  have "get_connected_nodes triangle_substrate ''nodeA'' = Some [''nodeB'', ''nodeC'']"
    by (simp add: get_connected_nodes_def lock_guard_const_def collect_connected_def
        triangle_substrate_def Let_def new_edge_def alist_eval insort_insert_triv
        insort_insert_insort less_eq_char_def less_char_def)
  then show ?thesis
    by (simp add: calculate_clustering_coefficient_None triangle_density)
qed

subsection \<open>Save, clear, load\<close>

lemma persistence_substrate_reached:
  "run_ops new_substrate persistence_ops = Some persistence_substrate"
  by (simp add: persistence_ops_def persistence_substrate_def persistent_node_def new_substrate_def
        add_node_def add_edge_def lock_guard_def validate_edge_consistency_def
        persistence_save_node_def persistence_save_edge_def new_node_def new_edge_def alist_eval
        Let_def)

lemma save_nodes_ok: "\<exists>p'. save_nodes xs p = (True, p')"
  by (induction xs arbitrary: p) (auto simp: persistence_save_node_def)

lemma save_edges_ok: "\<exists>p'. save_edges xs p = (True, p')"
  by (induction xs arbitrary: p) (auto simp: persistence_save_edge_def)

lemma save_clear_load_empty:
  assumes "\<not> substrate_mutex s"
  shows "\<exists>s1 s2 s3. save_substrate s = Some (True, s1) \<and> clear_substrate s1 = Some ((), s2) \<and>
           load_substrate s2 = Some (True, s3) \<and>
           DAList.impl_of (nodes s3) = [] \<and> DAList.impl_of (edges s3) = []"
proof -
  obtain p1 where p1: "save_nodes (DAList.impl_of (nodes s)) (persistence s) = (True, p1)"
    using save_nodes_ok by blast
  obtain p2 where p2: "save_edges (DAList.impl_of (edges s)) p1 = (True, p2)"
    using save_edges_ok by blast
  have 1: "save_substrate s = Some (True, s\<lparr>persistence := p2\<rparr>)"
    using assms p1 p2 by (simp add: save_substrate_def lock_guard_def)
  have 2: "clear_substrate (s\<lparr>persistence := p2\<rparr>) =
             Some ((), s\<lparr>nodes := DAList.empty, edges := DAList.empty,
                         persistence := persistence_clear p2\<rparr>)"
    using assms by (simp add: clear_substrate_def lock_guard_def)
  have 3: "load_substrate (s\<lparr>nodes := DAList.empty, edges := DAList.empty,
                         persistence := persistence_clear p2\<rparr>) =
             Some (True, s\<lparr>nodes := DAList.empty, edges := DAList.empty,
                         persistence := persistence_clear p2\<rparr>)"
    using assms
    by (simp add: load_substrate_def lock_guard_def Let_def get_all_node_ids_def
        get_all_edge_ids_def persistence_clear_def DAList.empty.rep_eq)
  from 1 2 3 show ?thesis by (simp add: DAList.empty.rep_eq)
qed

text \<open>
  C4. On the substrate of the persistence test, \<^verbatim>\<open>save_substrate\<close>, then
  \<^verbatim>\<open>clear_substrate\<close>, then \<^verbatim>\<open>load_substrate\<close> all succeed and leave no node and no
  edge: \<^verbatim>\<open>clear_substrate\<close> has emptied the in-memory store that
  \<^verbatim>\<open>load_substrate\<close> reads. The specification and the test expect one node and one
  edge again.
\<close>

theorem save_clear_load_loses_substrate:
  "node_count persistence_substrate = Some 1 \<and>
   edge_count persistence_substrate = Some 1 \<and>
   (\<exists>s1 s2 s3.
      save_substrate persistence_substrate = Some (True, s1) \<and>
      clear_substrate s1 = Some ((), s2) \<and>
      node_count s2 = Some 0 \<and> edge_count s2 = Some 0 \<and>
      load_substrate s2 = Some (True, s3) \<and>
      node_count s3 = Some 0 \<and> edge_count s3 = Some 0 \<and>
      get_node s3 ''node1'' = Some None)"
proof -
  have free: "\<not> substrate_mutex persistence_substrate"
    by (simp add: persistence_substrate_def Let_def)
  have c: "node_count persistence_substrate = Some 1" "edge_count persistence_substrate = Some 1"
    by (simp_all add: node_count_def edge_count_def lock_guard_const_def persistence_substrate_def
        Let_def alist_eval)
  from save_clear_load_empty[OF free] obtain s1 s2 s3 where
    s: "save_substrate persistence_substrate = Some (True, s1)"
       "clear_substrate s1 = Some ((), s2)"
       "load_substrate s2 = Some (True, s3)"
       "DAList.impl_of (nodes s3) = []" "DAList.impl_of (edges s3) = []"
    by blast
  have m1: "\<not> substrate_mutex s1" using s(1) free
    by (auto simp: save_substrate_def lock_guard_def split: if_splits option.splits prod.splits)
  have m2: "\<not> substrate_mutex s2" and e2: "nodes s2 = DAList.empty" "edges s2 = DAList.empty"
    using s(2) m1 by (auto simp: clear_substrate_def lock_guard_def split: if_splits)
  have m3: "\<not> substrate_mutex s3" using s(3) m2
    by (auto simp: load_substrate_def lock_guard_def Let_def split: if_splits)
  have "node_count s2 = Some 0" "edge_count s2 = Some 0"
    using m2 e2 by (simp_all add: node_count_def edge_count_def lock_guard_const_def alist_eval)
  moreover have "node_count s3 = Some 0" "edge_count s3 = Some 0"
    using m3 s(4,5) by (simp_all add: node_count_def edge_count_def lock_guard_const_def size_alist_def)
  moreover have "get_node s3 ''node1'' = Some None"
    using m3 s(4) by (simp add: get_node_def lock_guard_const_def DAList.lookup.rep_eq)
  ultimately show ?thesis using c s(1,2,3) by blast
qed

subsection \<open>Resonance\<close>





lemma kernel_with_simps [simp]:
  "echo_identity (kernel_with i st) = i" "current_state (kernel_with i st) = st"
  by (simp_all add: kernel_with_def new_kernel_def)























lemma calculate_resonance_zero_hashes:
  "inp \<noteq> [] \<Longrightarrow> identity_signature (echo_identity k) \<noteq> [] \<Longrightarrow>
   h inp = 0 \<Longrightarrow> h (identity_signature (echo_identity k)) = 0 \<Longrightarrow>
   calculate_resonance h k inp = NaN"
  by (simp add: calculate_resonance_def)









subsection \<open>Signal processing\<close>

lemma set_cognitive_state_state:
  assumes "\<And>a b k. current_state (snd (on_state_transition H a b k)) = current_state k"
  shows "current_state (snd (set_cognitive_state H st k)) = st"
  using assms by (simp add: set_cognitive_state_def Let_def)

text \<open>
  C9, as amended. Let the transition hook leave the state alone and return from
  the transition to \<open>PROCESSING\<close>. If the extension hook throws, the call throws
  (what the hook threw, when the transition back returns) and the state is the
  one before the call. If the extension hook returns, the state ends as
  \<open>REFLECTING\<close>.
\<close>

theorem process_cognitive_signal_rollback:
  assumes pres: "\<And>a b k. current_state (snd (on_state_transition H a b k)) = current_state k"
    and enter: "set_cognitive_state H PROCESSING k = (None, k1)"
  shows "(\<forall>e k2. on_cognitive_process H d (record_signal L d k1) = (Some e, k2) \<longrightarrow>
            (\<exists>e' k'. process_cognitive_signal L H d k = (Some e', k') \<and>
                      current_state k' = current_state k \<and>
                      (fst (set_cognitive_state H (current_state k) k2) = None \<longrightarrow> e' = e))) \<and>
         (\<forall>k2. on_cognitive_process H d (record_signal L d k1) = (None, k2) \<longrightarrow>
            current_state (snd (process_cognitive_signal L H d k)) = REFLECTING)"
proof (intro conjI allI impI)
  fix e k2
  assume hook: "on_cognitive_process H d (record_signal L d k1) = (Some e, k2)"
  obtain r k3 where restore: "set_cognitive_state H (current_state k) k2 = (r, k3)"
    by (cases "set_cognitive_state H (current_state k) k2")
  have st: "current_state k3 = current_state k"
    using set_cognitive_state_state[OF pres, of "current_state k" k2] restore by simp
  show "\<exists>e' k'. process_cognitive_signal L H d k = (Some e', k') \<and>
                      current_state k' = current_state k \<and>
                      (fst (set_cognitive_state H (current_state k) k2) = None \<longrightarrow> e' = e)"
  proof (cases r)
    case None
    with enter hook restore st show ?thesis
      by (simp add: process_cognitive_signal_def Let_def)
  next
    case (Some e')
    with enter hook restore st show ?thesis
      by (simp add: process_cognitive_signal_def Let_def)
  qed
next
  fix k2
  assume hook: "on_cognitive_process H d (record_signal L d k1) = (None, k2)"
  with enter have "process_cognitive_signal L H d k = set_cognitive_state H REFLECTING k2"
    by (simp add: process_cognitive_signal_def Let_def)
  then show "current_state (snd (process_cognitive_signal L H d k)) = REFLECTING"
    using set_cognitive_state_state[OF pres, of REFLECTING k2] by simp
qed

theorem process_cognitive_signal_rollback_witness:
  "(\<forall>a b k. current_state (snd (on_state_transition failing_hooks a b k)) = current_state k) \<and>
   fst (set_cognitive_state failing_hooks PROCESSING (kernel_with test_identity AWAKENING)) = None \<and>
   fst (process_cognitive_signal sample_stdlib failing_hooks ''test signal data''
          (kernel_with test_identity AWAKENING)) = Some () \<and>
   current_state (snd (process_cognitive_signal sample_stdlib failing_hooks ''test signal data''
          (kernel_with test_identity AWAKENING))) = AWAKENING \<and>
   current_state (snd (process_cognitive_signal sample_stdlib default_hooks ''test signal data''
          (kernel_with test_identity AWAKENING))) = REFLECTING"
proof -
  let ?k = "kernel_with test_identity AWAKENING"
  let ?k1 = "?k\<lparr>current_state := PROCESSING\<rparr>"
  have pf: "\<And>a b k. current_state (snd (on_state_transition failing_hooks a b k)) = current_state k"
    by (simp add: failing_hooks_def)
  have pd: "\<And>a b k. current_state (snd (on_state_transition default_hooks a b k)) = current_state k"
    by (simp add: default_hooks_def)
  have ef: "set_cognitive_state failing_hooks PROCESSING ?k = (None, ?k1)"
    by (simp add: set_cognitive_state_def failing_hooks_def Let_def)
  have ed: "set_cognitive_state default_hooks PROCESSING ?k = (None, ?k1)"
    by (simp add: set_cognitive_state_def default_hooks_def Let_def)
  have hf: "on_cognitive_process failing_hooks ''test signal data''
              (record_signal sample_stdlib ''test signal data'' ?k1)
            = (Some (), record_signal sample_stdlib ''test signal data'' ?k1)"
    by (simp add: failing_hooks_def)
  have hd: "on_cognitive_process default_hooks ''test signal data''
              (record_signal sample_stdlib ''test signal data'' ?k1)
            = (None, record_signal sample_stdlib ''test signal data'' ?k1)"
    by (simp add: default_hooks_def)
  from process_cognitive_signal_rollback[of failing_hooks ?k ?k1 "''test signal data''" sample_stdlib,
      OF pf ef] hf
  obtain e' k' where
    "process_cognitive_signal sample_stdlib failing_hooks ''test signal data'' ?k = (Some e', k')"
    "current_state k' = current_state ?k"
    by blast
  then have f: "fst (process_cognitive_signal sample_stdlib failing_hooks ''test signal data'' ?k) = Some ()"
    "current_state (snd (process_cognitive_signal sample_stdlib failing_hooks ''test signal data'' ?k))
       = AWAKENING"
    by simp_all
  from process_cognitive_signal_rollback[of default_hooks ?k ?k1 "''test signal data''" sample_stdlib,
      OF pd ed] hd
  have s: "current_state (snd (process_cognitive_signal sample_stdlib default_hooks
             ''test signal data'' ?k)) = REFLECTING"
    by blast
  from pf ef f s show ?thesis by simp
qed

text \<open>
  C9 as stated fails: a kernel that was in \<open>PROCESSING\<close> before the call is in
  \<open>PROCESSING\<close> after a failed attempt, which is how \<^verbatim>\<open>CognitiveProcessor::onTrigger\<close>
  calls it; and a transition hook that sets the state decides the state after
  the failure.
\<close>

theorem failed_attempt_can_leave_processing:
  "fst (process_cognitive_signal sample_stdlib failing_hooks ''test signal data''
          (kernel_with test_identity PROCESSING)) = Some () \<and>
   current_state (snd (process_cognitive_signal sample_stdlib failing_hooks ''test signal data''
          (kernel_with test_identity PROCESSING))) = PROCESSING \<and>
   fst (process_cognitive_signal sample_stdlib meddling_hooks ''test signal data''
          (kernel_with test_identity AWAKENING)) = Some () \<and>
   current_state (snd (process_cognitive_signal sample_stdlib meddling_hooks ''test signal data''
          (kernel_with test_identity AWAKENING))) = DORMANT"
  by (simp add: process_cognitive_signal_def set_cognitive_state_def failing_hooks_def
        meddling_hooks_def Let_def record_signal_def store_def)

end
